theory Spec2Isabelle
  imports Complex_Main "HOL-Library.Sublist"
begin

section \<open>Characters and strings\<close>

text \<open>
  Python strings are modelled as \<^typ>\<open>string\<close> restricted to ASCII. The character
  predicates follow \<open>str.isspace\<close>, the \<open>\s\<close>, \<open>\d\<close> and \<open>\w\<close> classes of
  the \<open>re\<close> module on ASCII input.
\<close>

definition is_space :: "char \<Rightarrow> bool" where
  "is_space c \<longleftrightarrow>
     c \<in> set [CHR 0x09, CHR 0x0A, CHR 0x0B, CHR 0x0C, CHR 0x0D,
                CHR 0x1C, CHR 0x1D, CHR 0x1E, CHR 0x1F, CHR '' '']"

definition is_digit :: "char \<Rightarrow> bool" where
  "is_digit c \<longleftrightarrow> c \<in> set ''0123456789''"

definition is_word :: "char \<Rightarrow> bool" where
  "is_word c \<longleftrightarrow>
     is_digit c \<or> c \<in> set ''abcdefghijklmnopqrstuvwxyz''
       \<or> c \<in> set ''ABCDEFGHIJKLMNOPQRSTUVWXYZ'' \<or> c = CHR ''_''"

text \<open>\<open>str.strip()\<close>: whitespace removed at both ends.\<close>

definition strip :: "string \<Rightarrow> string" where
  "strip s = rev (dropWhile is_space (rev (dropWhile is_space s)))"

section \<open>Numbers and errors\<close>

text \<open>
  \<open>Number = Union[int, float]\<close>. An \<open>int\<close> is unbounded; a \<open>float\<close> is
  modelled by the rational it denotes, and float arithmetic by exact rational
  arithmetic: rounding, infinities and NaN are outside this model.
\<close>

datatype number = PInt int | PFloat rat

fun num_value :: "number \<Rightarrow> rat" where
  "num_value (PInt i) = of_int i"
| "num_value (PFloat q) = q"

fun py_add :: "number \<Rightarrow> number \<Rightarrow> number" where
  "py_add (PInt x) (PInt y) = PInt (x + y)"
| "py_add a b = PFloat (num_value a + num_value b)"

fun py_sub :: "number \<Rightarrow> number \<Rightarrow> number" where
  "py_sub (PInt x) (PInt y) = PInt (x - y)"
| "py_sub a b = PFloat (num_value a - num_value b)"

fun py_mul :: "number \<Rightarrow> number \<Rightarrow> number" where
  "py_mul (PInt x) (PInt y) = PInt (x * y)"
| "py_mul a b = PFloat (num_value a * num_value b)"

text \<open>True division \<open>a / b\<close> always yields a float.\<close>

definition py_truediv :: "number \<Rightarrow> number \<Rightarrow> number" where
  "py_truediv a b = PFloat (num_value a / num_value b)"

text \<open>
  The exceptions of the program. The first pass over a tool-call payload records
  why it failed (\<open>parse_error\<close>); \<open>MalformedArguments\<close> carries the raw payload
  and that cause, as the \<open>RuntimeError\<close> message does.
  \<^item> \<open>ExpressionTooLong\<close>, \<open>InvalidCharacters\<close> and \<open>UnsupportedOperation\<close> are the
    \<open>ValueError\<close>s of \<open>validate_expression\<close> and \<open>calculate\<close>;
  \<^item> \<open>DivisionByZero\<close> is the \<open>ZeroDivisionError\<close> of \<open>calculate\<close>, with the numerator;
  \<^item> \<open>NoToolCall\<close>, \<open>MalformedArguments\<close> and \<open>MaxCallsExceeded\<close> are the
    \<open>RuntimeError\<close>s of the agents;
  \<^item> \<open>PyTypeError\<close>, \<open>PyAttributeError\<close> and \<open>PyIndexError\<close> are exceptions of the
    interpreter that the agents do not catch;
  \<^item> \<open>OperandNotNumber\<close> and \<open>PatternError\<close> mark inputs that leave this model
    (arithmetic on operands that are not numbers, a pattern outside the modelled
    fragment of \<open>re\<close>).
\<close>

datatype parse_error =
    JSONDecodeError
  | KeyError string
  | OpNotString
  | InvalidOperation string

datatype error =
    ExpressionTooLong int
  | InvalidCharacters string
  | NoToolCall
  | MalformedArguments string parse_error
  | DivisionByZero number
  | UnsupportedOperation string
  | MaxCallsExceeded int
  | PyTypeError
  | PyAttributeError
  | PyIndexError
  | OperandNotNumber
  | PatternError string

section \<open>The calculator (\<open>src/tools/calculator.py\<close>)\<close>

definition calculate :: "number \<Rightarrow> number \<Rightarrow> string \<Rightarrow> error + number" where
  "calculate a b op0 =
     (let op = strip op0 in
      if op = ''+'' then Inr (py_add a b)
      else if op = ''-'' then Inr (py_sub a b)
      else if op = ''*'' then Inr (py_mul a b)
      else if op = ''/'' then
        (if num_value b = 0 then Inl (DivisionByZero a) else Inr (py_truediv a b))
      else Inl (UnsupportedOperation op))"

section \<open>Input validation (\<open>validate_expression\<close>)\<close>

text \<open>
  The character class \<open>[\d\s\+\-\*\/\(\)\.]\<close> of the validation pattern.
\<close>

definition allowed_char :: "char \<Rightarrow> bool" where
  "allowed_char c = (is_digit c \<or> is_space c \<or> c \<in> set ''+-*/().'')"

text \<open>
  \<open>re.match(r'^[...]+$', s)\<close>: one or more characters of the class up to the end
  of the string. \<open>$\<close> also matches before a final newline, but a newline is
  itself in the class, so the match succeeds exactly on the non-empty strings
  made of class characters.
\<close>

definition match_allowed :: "string \<Rightarrow> bool" where
  "match_allowed s = (s \<noteq> [] \<and> list_all allowed_char s)"

definition validate_expression :: "string \<Rightarrow> int \<Rightarrow> error + bool" where
  "validate_expression expression max_expression_length =
     (if int (length expression) > max_expression_length
        then Inl (ExpressionTooLong max_expression_length)
      else if \<not> match_allowed expression
        then Inl (InvalidCharacters expression)
      else Inr True)"

section \<open>Rendering numbers\<close>

text \<open>\<open>str(n)\<close> for an \<open>int\<close>: decimal digits, with a minus sign when negative.\<close>

definition digit_char :: "int \<Rightarrow> char" where
  "digit_char d = ''0123456789'' ! nat d"

function digits_of :: "int \<Rightarrow> string" where
  "digits_of n = (if n < 10 then [digit_char n] else digits_of (n div 10) @ [digit_char (n mod 10)])"
  by pat_completeness auto
termination
  by (relation "measure nat") auto

declare digits_of.simps [simp del]

definition str_int :: "int \<Rightarrow> string" where
  "str_int i = (if i < 0 then CHR ''-'' # digits_of (- i) else digits_of i)"

text \<open>
  \<open>float_to_str\<close> is \<open>f'{f: g}'.strip()\<close>: the general format with six
  significant digits, applied to ints as well (an int is converted to float by
  the format). The value is rounded half-even to six significant digits; with
  decimal exponent \<open>e\<close> of the rounded value, fixed notation is used when
  \<open>-4 \<le> e < 6\<close> and scientific notation otherwise, trailing zeros removed.
  The space flag puts a blank before a non-negative number, which \<open>strip\<close>
  removes again.
\<close>

definition round_half_even :: "rat \<Rightarrow> int" where
  "round_half_even y =
     (let f = \<lfloor>y\<rfloor>; r = y - of_int f in
      if r < 1 / 2 then f else if 1 / 2 < r then f + 1 else if even f then f else f + 1)"

fun first_scale :: "rat \<Rightarrow> nat \<Rightarrow> nat \<Rightarrow> nat" where
  "first_scale x 0 k = k"
| "first_scale x (Suc n) k = (if 1 \<le> x * 10 ^ k then k else first_scale x n (Suc k))"

text \<open>The decimal exponent of a positive rational: \<open>10 ^ e \<le> x < 10 ^ (e + 1)\<close>.\<close>

definition floor_log10 :: "rat \<Rightarrow> int" where
  "floor_log10 x =
     (if 1 \<le> x then int (length (digits_of \<lfloor>x\<rfloor>)) - 1
      else - int (first_scale x (length (digits_of (snd (quotient_of x)))) 1))"

definition pow10 :: "int \<Rightarrow> rat" where
  "pow10 e = (if 0 \<le> e then 10 ^ nat e else 1 / 10 ^ nat (- e))"

definition strip_zeros :: "string \<Rightarrow> string" where
  "strip_zeros s = rev (dropWhile (\<lambda>c. c = CHR ''0'') (rev s))"

definition with_point :: "string \<Rightarrow> string \<Rightarrow> string" where
  "with_point ip fp = (if strip_zeros fp = [] then ip else ip @ ''.'' @ strip_zeros fp)"

definition exponent_str :: "int \<Rightarrow> string" where
  "exponent_str e =
     (let d = digits_of \<bar>e\<bar> in
      (if e < 0 then ''-'' else ''+'') @ (if length d < 2 then CHR ''0'' # d else d))"

definition format_g :: "rat \<Rightarrow> string" where
  "format_g q =
     (if q = 0 then ''0''
      else
        let x = \<bar>q\<bar>;
            e0 = floor_log10 x;
            m0 = round_half_even (x * pow10 (5 - e0));
            m = (if 1000000 \<le> m0 then m0 div 10 else m0);
            e = (if 1000000 \<le> m0 then e0 + 1 else e0);
            ds = digits_of m;
            body =
              (if -4 \<le> e \<and> e < 6 then
                 (if 0 \<le> e then with_point (take (nat (e + 1)) ds) (drop (nat (e + 1)) ds)
                  else with_point ''0'' (replicate (nat (- e - 1)) CHR ''0'' @ ds))
               else with_point (take 1 ds) (drop 1 ds) @ ''e'' @ exponent_str e)
        in (if q < 0 then CHR ''-'' # body else body))"

definition float_to_str :: "number \<Rightarrow> string" where
  "float_to_str f = strip (format_g (num_value f))"

section \<open>Regular expressions (the fragment of \<open>re\<close> the program builds)\<close>

text \<open>
  The program builds its patterns by string concatenation and hands them to
  \<open>re.search\<close> and \<open>re.sub\<close>. The patterns consist of literal characters,
  \<open>.\<close>, the escapes \<open>\b\<close>, \<open>\s\<close>, \<open>\d\<close> and escaped punctuation, each optionally
  followed by one of the greedy quantifiers \<open>?\<close>, \<open>*\<close>, \<open>+\<close>. \<open>rx_compile\<close>
  parses exactly this fragment; on any other syntax it returns \<open>None\<close>.
\<close>

datatype atom = Lit char | AnyChar | Space | Digit

datatype rx = One atom | Opt atom | Star atom | Plus atom | WordBoundary

datatype rx_token = TAtom atom | TBoundary | TQuant char

fun atom_ok :: "atom \<Rightarrow> char \<Rightarrow> bool" where
  "atom_ok (Lit d) c = (c = d)"
| "atom_ok AnyChar c = (c \<noteq> CHR 0x0A)"
| "atom_ok Space c = is_space c"
| "atom_ok Digit c = is_digit c"

definition rx_escape :: "char \<Rightarrow> rx_token option" where
  "rx_escape d =
     (if d = CHR ''b'' then Some TBoundary
      else if d = CHR ''s'' then Some (TAtom Space)
      else if d = CHR ''d'' then Some (TAtom Digit)
      else if is_word d then None
      else Some (TAtom (Lit d)))"

definition rx_plain :: "char \<Rightarrow> rx_token option" where
  "rx_plain c =
     (if c \<in> set ''?*+'' then Some (TQuant c)
      else if c = CHR ''.'' then Some (TAtom AnyChar)
      else if c \<in> set ''()[]{}|^$'' then None
      else Some (TAtom (Lit c)))"

fun rx_tokens :: "string \<Rightarrow> rx_token list option" where
  "rx_tokens [] = Some []"
| "rx_tokens (c # cs) =
     (if c = CHR 0x5C then
        (case cs of
           [] \<Rightarrow> None
         | d # ds \<Rightarrow>
             (case rx_escape d of
                None \<Rightarrow> None
              | Some t \<Rightarrow> map_option ((#) t) (rx_tokens ds)))
      else
        (case rx_plain c of
           None \<Rightarrow> None
         | Some t \<Rightarrow> map_option ((#) t) (rx_tokens cs)))"

definition quantify :: "char \<Rightarrow> atom \<Rightarrow> rx" where
  "quantify q a = (if q = CHR ''?'' then Opt a else if q = CHR ''*'' then Star a else Plus a)"

fun rx_items :: "rx_token list \<Rightarrow> rx list option" where
  "rx_items [] = Some []"
| "rx_items (TAtom a # TQuant q # TQuant q' # ts) = None"
| "rx_items (TAtom a # TQuant q # ts) = map_option ((#) (quantify q a)) (rx_items ts)"
| "rx_items (TAtom a # ts) = map_option ((#) (One a)) (rx_items ts)"
| "rx_items (TBoundary # TQuant q # ts) = None"
| "rx_items (TBoundary # ts) = map_option ((#) WordBoundary) (rx_items ts)"
| "rx_items (TQuant q # ts) = None"

definition rx_compile :: "string \<Rightarrow> rx list option" where
  "rx_compile p = (case rx_tokens p of None \<Rightarrow> None | Some ts \<Rightarrow> rx_items ts)"

text \<open>
  Matching at one position, with the backtracking order of \<open>re\<close>: quantifiers
  are greedy and give characters back one at a time. \<open>prev\<close> is the character
  before the position (for \<open>\b\<close>); the result is the text after the match.
\<close>

definition word_opt :: "char option \<Rightarrow> bool" where
  "word_opt c = (case c of None \<Rightarrow> False | Some d \<Rightarrow> is_word d)"

definition next_char :: "string \<Rightarrow> char option" where
  "next_char s = (case s of [] \<Rightarrow> None | c # _ \<Rightarrow> Some c)"

function rx_match :: "rx list \<Rightarrow> char option \<Rightarrow> string \<Rightarrow> string option" where
  "rx_match [] prev s = Some s"
| "rx_match (WordBoundary # rs) prev s =
     (if word_opt prev \<noteq> word_opt (next_char s) then rx_match rs prev s else None)"
| "rx_match (One a # rs) prev [] = None"
| "rx_match (One a # rs) prev (c # cs) =
     (if atom_ok a c then rx_match rs (Some c) cs else None)"
| "rx_match (Opt a # rs) prev [] = rx_match rs prev []"
| "rx_match (Opt a # rs) prev (c # cs) =
     (if atom_ok a c then
        (case rx_match rs (Some c) cs of
           Some r \<Rightarrow> Some r
         | None \<Rightarrow> rx_match rs prev (c # cs))
      else rx_match rs prev (c # cs))"
| "rx_match (Star a # rs) prev [] = rx_match rs prev []"
| "rx_match (Star a # rs) prev (c # cs) =
     (if atom_ok a c then
        (case rx_match (Star a # rs) (Some c) cs of
           Some r \<Rightarrow> Some r
         | None \<Rightarrow> rx_match rs prev (c # cs))
      else rx_match rs prev (c # cs))"
| "rx_match (Plus a # rs) prev [] = None"
| "rx_match (Plus a # rs) prev (c # cs) =
     (if atom_ok a c then rx_match (Star a # rs) (Some c) cs else None)"
  by pat_completeness auto
termination
  by (relation "measures [\<lambda>(rs, prev, s). length s, \<lambda>(rs, prev, s). size_list size rs]") auto

text \<open>
  \<open>re.search\<close>: the leftmost position with a match. The result splits the
  text into what precedes the match, the match and what follows it.
\<close>

definition last_opt :: "string \<Rightarrow> char option" where
  "last_opt s = (if s = [] then None else Some (last s))"

fun rx_find :: "rx list \<Rightarrow> string \<Rightarrow> string \<Rightarrow> (string \<times> string \<times> string) option" where
  "rx_find p pre [] =
     (case rx_match p (last_opt pre) [] of
        Some r \<Rightarrow> Some (pre, [], [])
      | None \<Rightarrow> None)"
| "rx_find p pre (c # cs) =
     (case rx_match p (last_opt pre) (c # cs) of
        Some r \<Rightarrow> Some (pre, take (length (c # cs) - length r) (c # cs), r)
      | None \<Rightarrow> rx_find p (pre @ [c]) cs)"

definition re_search :: "rx list \<Rightarrow> string \<Rightarrow> bool" where
  "re_search p s = (rx_find p [] s \<noteq> None)"

text \<open>\<open>re.sub(pattern, repl, string, count=1)\<close> for a replacement without backslashes.\<close>

definition re_sub1 :: "rx list \<Rightarrow> string \<Rightarrow> string \<Rightarrow> string" where
  "re_sub1 p repl s =
     (case rx_find p [] s of None \<Rightarrow> s | Some (pre, m, post) \<Rightarrow> pre @ repl @ post)"

text \<open>\<open>re.escape\<close>: a backslash before each special character.\<close>

definition re_escape :: "string \<Rightarrow> string" where
  "re_escape s =
     concat (map (\<lambda>c. if c \<in> set ''()[]{}?*+-|^$.&~# '' \<or> c = CHR 0x5C
                           \<or> c \<in> set [CHR 0x09, CHR 0x0A, CHR 0x0B, CHR 0x0C, CHR 0x0D]
                        then [CHR 0x5C, c] else [c]) s)"

text \<open>\<open>str.replace(old, new)\<close> for a non-empty \<open>old\<close>: all occurrences, left to right.\<close>

fun list_replace :: "string \<Rightarrow> string \<Rightarrow> string \<Rightarrow> nat \<Rightarrow> string" where
  "list_replace old new [] skip = []"
| "list_replace old new (c # cs) skip =
     (if 0 < skip then list_replace old new cs (skip - 1)
      else if prefix old (c # cs) then new @ list_replace old new cs (length old - 1)
      else c # list_replace old new cs 0)"

definition str_replace :: "string \<Rightarrow> string \<Rightarrow> string \<Rightarrow> string" where
  "str_replace old new s = list_replace old new s 0"

section \<open>Expression reduction (\<open>reduce_expression\<close>)\<close>

definition create_number_pattern :: "number \<Rightarrow> string" where
  "create_number_pattern num =
     (case num of
        PInt i \<Rightarrow> [CHR 0x5C, CHR ''b''] @ str_int i @ [CHR 0x5C, CHR ''b'']
      | PFloat q \<Rightarrow>
          [CHR 0x5C, CHR ''b''] @ str_replace ''.'' [CHR 0x5C, CHR ''.'', CHR ''?''] (float_to_str num)
            @ [CHR 0x5C, CHR ''b''])"

definition ws_star :: string where
  "ws_star = [CHR 0x5C, CHR ''s'', CHR ''*'']"

definition parentheses_pattern :: "number \<Rightarrow> number \<Rightarrow> string \<Rightarrow> string" where
  "parentheses_pattern a b op =
     [CHR 0x5C, CHR ''(''] @ ws_star @ create_number_pattern a @ ws_star @ re_escape op
       @ ws_star @ create_number_pattern b @ ws_star @ [CHR 0x5C, CHR '')'']"

definition standard_pattern :: "number \<Rightarrow> number \<Rightarrow> string \<Rightarrow> string" where
  "standard_pattern a b op =
     create_number_pattern a @ ws_star @ re_escape op @ ws_star @ create_number_pattern b"

definition op_pattern :: "number \<Rightarrow> number \<Rightarrow> string \<Rightarrow> string" where
  "op_pattern a b op =
     float_to_str a @ ws_star @ [CHR 0x5C] @ op @ ws_star @ float_to_str b"

text \<open>
  A pattern outside the modelled fragment (where \<open>re\<close> would raise or use a
  construct not modelled here) yields \<open>PatternError\<close> with the pattern text.
\<close>

definition compiled :: "string \<Rightarrow> error + rx list" where
  "compiled p = (case rx_compile p of None \<Rightarrow> Inl (PatternError p) | Some r \<Rightarrow> Inr r)"

definition reduce_standard :: "string \<Rightarrow> number \<Rightarrow> number \<Rightarrow> string \<Rightarrow> number \<Rightarrow> error + string" where
  "reduce_standard expression a b op result =
     (case compiled (standard_pattern a b op) of
        Inl e \<Rightarrow> Inl e
      | Inr pattern \<Rightarrow>
          (let new_expression = re_sub1 pattern (float_to_str result) expression in
           if new_expression = expression then
             (case compiled (op_pattern a b op) of
                Inl e \<Rightarrow> Inl e
              | Inr opp \<Rightarrow> Inr (re_sub1 opp (float_to_str result) expression))
           else Inr new_expression))"

definition reduce_expression :: "string \<Rightarrow> number \<Rightarrow> number \<Rightarrow> string \<Rightarrow> number \<Rightarrow> error + string" where
  "reduce_expression expression a b op result =
     (if CHR ''('' \<in> set expression \<and> CHR '')'' \<in> set expression then
        (case compiled (parentheses_pattern a b op) of
           Inl e \<Rightarrow> Inl e
         | Inr pp \<Rightarrow>
             if re_search pp expression
               then Inr (re_sub1 pp (float_to_str result) expression)
               else reduce_standard expression a b op result)
      else reduce_standard expression a b op result)"

section \<open>Tool calls and their arguments\<close>

text \<open>
  A decoded JSON value. An object is the \<open>dict\<close> that \<open>json.loads\<close> returns,
  written as an association list with one entry per key.
\<close>

datatype json =
    JNull
  | JBool bool
  | JNum number
  | JStr string
  | JArr "json list"
  | JObj "(string \<times> json) list"

text \<open>Truth value of a decoded value, as \<open>if result.is_final_step:\<close> takes it.\<close>

fun truthy :: "json \<Rightarrow> bool" where
  "truthy JNull = False"
| "truthy (JBool b) = b"
| "truthy (JNum n) = (num_value n \<noteq> 0)"
| "truthy (JStr s) = (s \<noteq> [])"
| "truthy (JArr xs) = (xs \<noteq> [])"
| "truthy (JObj kv) = (kv \<noteq> [])"

text \<open>A tool call of the model's response: \<open>id\<close>, \<open>function.name\<close>, \<open>function.arguments\<close>.\<close>

record tool_call =
  call_id :: string
  fname :: string
  arguments :: string

text \<open>
  Modelled from the spec: \<open>ToolCallResult\<close> (\<open>src/agents/tool_call_result.py\<close> is not
  among the sources) aggregates, for one model turn, the ordered
  \<open>(result, call_id)\<close> pairs, the \<open>is_final_step\<close> flag, the rendered steps and
  (Reducing only) the rewritten expression; the fields are in the order of the
  constructor calls in the two agents.
\<close>

record tool_call_result =
  results :: "(number \<times> string) list"
  is_final_step :: json
  call_steps :: "string list"
  remaining_expression :: string

text \<open>
  Modelled from the spec: \<open>MessageHistory\<close> (\<open>src/llm/chatgpt.py\<close> is not among the
  sources) is the ordered message history: system prompt, user prompts, the
  model's own tool-call message and tool-result messages.
\<close>

datatype message =
    SystemMessage string
  | UserMessage string
  | GenericMessage "tool_call list"
  | ToolResultMessage number string

text \<open>What \<open>run\<close> may return: a number, \<open>None\<close>, or the empty tuple that \<open>eval\<close>
  gives for \<open>()\<close>.\<close>

datatype pyval = Number number | PyNone | EmptyTuple

text \<open>
  The collaborators outside the repository: \<open>json.loads\<close> (\<open>None\<close> is
  \<open>JSONDecodeError\<close>), \<open>repr\<close> of a float as used by the f-string of a step, the
  builtin \<open>eval\<close> (\<open>None\<close> is any exception), and the model client
  \<open>llm_client.run_prompt\<close>, a state machine returning the tool calls of its
  response.
\<close>

record 's env =
  json_loads :: "string \<Rightarrow> json option"
  float_repr :: "rat \<Rightarrow> string"
  py_eval :: "string \<Rightarrow> pyval option"
  run_prompt :: "'s \<Rightarrow> message list \<Rightarrow> tool_call list \<times> 's"

definition py_str :: "(rat \<Rightarrow> string) \<Rightarrow> number \<Rightarrow> string" where
  "py_str frepr n = (case n of PInt i \<Rightarrow> str_int i | PFloat q \<Rightarrow> frepr q)"

text \<open>The first pass either yields the four arguments, or an exception that the
  \<open>except (KeyError, ValueError, json.JSONDecodeError)\<close> clause catches
  (\<open>Caught\<close>), or one that it does not (\<open>Uncaught\<close>).\<close>

datatype first_failure = Caught parse_error | Uncaught error

definition dict_get :: "(string \<times> json) list \<Rightarrow> string \<Rightarrow> parse_error + json" where
  "dict_get kv k = (case map_of kv k of None \<Rightarrow> Inl (KeyError k) | Some v \<Rightarrow> Inr v)"

definition valid_ops :: "string list" where
  "valid_ops = [''+'', ''-'', ''*'', ''/'']"

definition fix_op_key :: "(string \<times> json) list \<Rightarrow> (string \<times> json) list" where
  "fix_op_key kv =
     (case map_of kv ''op:'' of
        Some v \<Rightarrow> (if map_of kv ''op'' = None then (''op'', v) # kv else kv)
      | None \<Rightarrow> kv)"

definition first_pass :: "(string \<Rightarrow> json option) \<Rightarrow> string
    \<Rightarrow> first_failure + (json \<times> json \<times> json \<times> json)" where
  "first_pass loads raw =
     (case loads raw of
        None \<Rightarrow> Inl (Caught JSONDecodeError)
      | Some (JObj kv0) \<Rightarrow>
          (let func_args = fix_op_key kv0 in
           case dict_get func_args ''a'' of Inl e \<Rightarrow> Inl (Caught e) | Inr a \<Rightarrow>
           case dict_get func_args ''b'' of Inl e \<Rightarrow> Inl (Caught e) | Inr b \<Rightarrow>
           case dict_get func_args ''op'' of Inl e \<Rightarrow> Inl (Caught e) | Inr op \<Rightarrow>
           case dict_get func_args ''is_final_step'' of Inl e \<Rightarrow> Inl (Caught e) | Inr fin \<Rightarrow>
             (case op of
                JStr s \<Rightarrow>
                  if s \<notin> set valid_ops then Inl (Caught (InvalidOperation s))
                  else Inr (a, b, op, fin)
              | _ \<Rightarrow> Inl (Caught OpNotString)))
      | Some _ \<Rightarrow> Inl (Uncaught PyTypeError))"

text \<open>The repair pass: \<open>arguments.replace("op:", "op")\<close>, decoded again, the four
  keys read again; any exception becomes the \<open>RuntimeError\<close> that reports the
  raw payload and the first error.\<close>

definition repair_pass :: "(string \<Rightarrow> json option) \<Rightarrow> string \<Rightarrow> parse_error
    \<Rightarrow> error + (json \<times> json \<times> json \<times> json)" where
  "repair_pass loads raw cause =
     (let fixed_args = str_replace ''op:'' ''op'' raw in
      case loads fixed_args of
        Some (JObj func_args) \<Rightarrow>
          (case dict_get func_args ''a'' of Inl e \<Rightarrow> Inl (MalformedArguments raw cause) | Inr a \<Rightarrow>
           case dict_get func_args ''b'' of Inl e \<Rightarrow> Inl (MalformedArguments raw cause) | Inr b \<Rightarrow>
           case dict_get func_args ''op'' of Inl e \<Rightarrow> Inl (MalformedArguments raw cause) | Inr op \<Rightarrow>
           case dict_get func_args ''is_final_step'' of Inl e \<Rightarrow> Inl (MalformedArguments raw cause)
           | Inr fin \<Rightarrow> Inr (a, b, op, fin))
      | _ \<Rightarrow> Inl (MalformedArguments raw cause))"

definition parse_arguments :: "(string \<Rightarrow> json option) \<Rightarrow> string
    \<Rightarrow> error + (json \<times> json \<times> json \<times> json)" where
  "parse_arguments loads raw =
     (case first_pass loads raw of
        Inr t \<Rightarrow> Inr t
      | Inl (Uncaught e) \<Rightarrow> Inl e
      | Inl (Caught cause) \<Rightarrow> repair_pass loads raw cause)"

text \<open>
  \<open>calculate(a, b, op)\<close> on the decoded arguments. \<open>op.strip()\<close> comes first and
  raises \<open>AttributeError\<close> when \<open>op\<close> is not a string; an unsupported symbol is
  rejected without touching the operands. Arithmetic on operands that are not
  JSON numbers is outside this model and reported as \<open>OperandNotNumber\<close>.
\<close>

definition call_calculate :: "json \<Rightarrow> json \<Rightarrow> json \<Rightarrow> error + (number \<times> number \<times> string \<times> number)" where
  "call_calculate a b op =
     (case op of
        JStr s \<Rightarrow>
          if strip s \<notin> set valid_ops then Inl (UnsupportedOperation (strip s))
          else
            (case (a, b) of
               (JNum x, JNum y) \<Rightarrow>
                 (case calculate x y s of Inl e \<Rightarrow> Inl e | Inr r \<Rightarrow> Inr (x, y, s, r))
             | _ \<Rightarrow> Inl OperandNotNumber)
      | _ \<Rightarrow> Inl PyAttributeError)"

definition step_str :: "(rat \<Rightarrow> string) \<Rightarrow> number \<Rightarrow> string \<Rightarrow> number \<Rightarrow> number \<Rightarrow> string" where
  "step_str frepr a op b result =
     py_str frepr a @ '' '' @ op @ '' '' @ py_str frepr b @ '' = '' @ py_str frepr result"

section \<open>The Stepwise agent (\<open>src/agents/stepwise_agent.py\<close>)\<close>

record base_config =
  max_expression_length :: int
  system_prompt :: string
  max_llm_calls :: int

record stepwise_config = base_config +
  subsequent_prompt :: string
  initial_prompt :: string
  return_tool_call_msgs :: bool
  append_messages :: bool

record reducing_config = base_config +
  prompt :: string

text \<open>The \<open>for tool_call in tool_calls\<close> loop, with the three accumulators.\<close>

fun stepwise_calls :: "'s env \<Rightarrow> tool_call list \<Rightarrow> tool_call_result \<Rightarrow> error + tool_call_result" where
  "stepwise_calls env [] acc = Inr acc"
| "stepwise_calls env (tc # tcs) acc =
     (case parse_arguments (json_loads env) (arguments tc) of
        Inl e \<Rightarrow> Inl e
      | Inr (a, b, op, fin) \<Rightarrow>
          (case call_calculate a b op of
             Inl e \<Rightarrow> Inl e
           | Inr (x, y, s, result) \<Rightarrow>
               stepwise_calls env tcs
                 (acc\<lparr>results := results acc @ [(result, call_id tc)],
                      is_final_step := fin,
                      call_steps := call_steps acc @ [step_str (float_repr env) x s y result]\<rparr>)))"

definition stepwise_process_tool_calls :: "'s env \<Rightarrow> tool_call list \<Rightarrow> error + tool_call_result" where
  "stepwise_process_tool_calls env tool_calls =
     (if tool_calls = [] then Inl NoToolCall
      else stepwise_calls env tool_calls
             \<lparr>results = [], is_final_step = JBool False, call_steps = [], remaining_expression = ''''\<rparr>)"

text \<open>\<open>'\n'.join(steps)\<close>.\<close>

fun join_lines :: "string list \<Rightarrow> string" where
  "join_lines [] = []"
| "join_lines [x] = x"
| "join_lines (x # y # ys) = x @ [CHR 0x0A] @ join_lines (y # ys)"

definition stepwise_prepare_next_prompt :: "stepwise_config \<Rightarrow> message list \<Rightarrow> string \<Rightarrow> string list
    \<Rightarrow> (number \<times> string) list \<Rightarrow> tool_call list \<Rightarrow> message list" where
  "stepwise_prepare_next_prompt cfg prompt_msg expression steps rs response =
     (let steps_so_far = join_lines steps;
          next_prompt = str_replace ''{STEPS_SO_FAR}'' steps_so_far
                          (str_replace ''{EXPRESSION}'' expression (subsequent_prompt cfg))
      in if append_messages cfg then
           (if return_tool_call_msgs cfg
              then prompt_msg @ [GenericMessage response]
                     @ map (\<lambda>(result, tool_call_id). ToolResultMessage result tool_call_id) rs
                     @ [UserMessage next_prompt]
              else prompt_msg @ [UserMessage next_prompt])
         else [SystemMessage (system_prompt cfg), UserMessage next_prompt])"

text \<open>\<open>result.results[-1][0]\<close>; the list is never empty after a successful turn.\<close>

definition last_result :: "(number \<times> string) list \<Rightarrow> error + pyval" where
  "last_result rs = (if rs = [] then Inl PyIndexError else Inr (Number (fst (last rs))))"

function stepwise_loop :: "'s env \<Rightarrow> stepwise_config \<Rightarrow> string \<Rightarrow> 's \<Rightarrow> int \<Rightarrow> message list
    \<Rightarrow> string list \<Rightarrow> (error + pyval) \<times> 's" where
  "stepwise_loop env cfg expression st i prompt_msg steps =
     (case run_prompt env st prompt_msg of (response, st') \<Rightarrow>
        (case stepwise_process_tool_calls env response of
           Inl e \<Rightarrow> (Inl e, st')
         | Inr result \<Rightarrow>
             if truthy (is_final_step result) then (last_result (results result), st')
             else if i \<ge> max_llm_calls cfg then (Inl (MaxCallsExceeded (max_llm_calls cfg)), st')
             else stepwise_loop env cfg expression st' (i + 1)
                    (stepwise_prepare_next_prompt cfg prompt_msg expression
                       (steps @ call_steps result) (results result) response)
                    (steps @ call_steps result)))"
  by pat_completeness auto
termination
  by (relation "measure (\<lambda>(env, cfg, expression, st, i, prompt_msg, steps). nat (max_llm_calls cfg - i))")
     auto

declare stepwise_loop.simps [simp del]

definition stepwise_run :: "'s env \<Rightarrow> stepwise_config \<Rightarrow> 's \<Rightarrow> string \<Rightarrow> (error + pyval) \<times> 's" where
  "stepwise_run env cfg st expression =
     (case validate_expression expression (max_expression_length cfg) of
        Inl e \<Rightarrow> (Inl e, st)
      | Inr ok \<Rightarrow>
          stepwise_loop env cfg expression st 1
            [SystemMessage (system_prompt cfg),
             UserMessage (str_replace ''{EXPRESSION}'' expression (initial_prompt cfg))]
            [])"

section \<open>The Reducing agent (\<open>src/agents/reducing_agent.py\<close>)\<close>

fun reducing_calls :: "'s env \<Rightarrow> tool_call list \<Rightarrow> tool_call_result \<Rightarrow> error + tool_call_result" where
  "reducing_calls env [] acc = Inr acc"
| "reducing_calls env (tc # tcs) acc =
     (case parse_arguments (json_loads env) (arguments tc) of
        Inl e \<Rightarrow> Inl e
      | Inr (a, b, op, fin) \<Rightarrow>
          (case call_calculate a b op of
             Inl e \<Rightarrow> Inl e
           | Inr (x, y, s, result) \<Rightarrow>
               (case reduce_expression (remaining_expression acc) x y s result of
                  Inl e \<Rightarrow> Inl e
                | Inr expression \<Rightarrow>
                    reducing_calls env tcs
                      (acc\<lparr>results := results acc @ [(result, call_id tc)],
                           is_final_step := fin,
                           call_steps := call_steps acc @ [step_str (float_repr env) x s y result],
                           remaining_expression := expression\<rparr>))))"

definition reducing_process_tool_calls :: "'s env \<Rightarrow> tool_call list \<Rightarrow> string \<Rightarrow> error + tool_call_result" where
  "reducing_process_tool_calls env tool_calls expression =
     (if tool_calls = [] then Inl NoToolCall
      else reducing_calls env tool_calls
             \<lparr>results = [], is_final_step = JBool False, call_steps = [],
              remaining_expression = expression\<rparr>)"

definition reducing_prepare_next_prompt :: "reducing_config \<Rightarrow> string \<Rightarrow> message list" where
  "reducing_prepare_next_prompt cfg expression =
     [SystemMessage (system_prompt cfg),
      UserMessage (str_replace ''{EXPRESSION}'' expression (prompt cfg))]"

text \<open>
  \<open>float(s)\<close> on a stripped string: optional sign, decimal digits with an
  optional point, optional exponent. The spellings of infinity and NaN and
  digit-group underscores, which \<open>float\<close> also accepts, have no value in this
  model and are rejected like any other text.
\<close>

definition digits_value :: "string \<Rightarrow> int" where
  "digits_value ds = foldl (\<lambda>acc c. 10 * acc + (of_char c - 48)) 0 ds"

definition parse_exponent :: "string \<Rightarrow> int option" where
  "parse_exponent s =
     (let neg = (case s of c # _ \<Rightarrow> c = CHR ''-'' | [] \<Rightarrow> False);
          t = (case s of c # r \<Rightarrow> if c = CHR ''-'' \<or> c = CHR ''+'' then r else s | [] \<Rightarrow> s)
      in if t = [] \<or> \<not> list_all is_digit t then None
         else Some (if neg then - digits_value t else digits_value t))"

definition parse_unsigned :: "string \<Rightarrow> rat option" where
  "parse_unsigned s =
     (let ip = takeWhile is_digit s;
          r1 = dropWhile is_digit s;
          fp = (case r1 of c # t \<Rightarrow> if c = CHR ''.'' then takeWhile is_digit t else [] | [] \<Rightarrow> []);
          r2 = (case r1 of c # t \<Rightarrow> if c = CHR ''.'' then dropWhile is_digit t else r1 | [] \<Rightarrow> [])
      in if ip = [] \<and> fp = [] then None
         else
           (let m = of_int (digits_value (ip @ fp)) / 10 ^ length fp in
            case r2 of
              [] \<Rightarrow> Some m
            | c # t \<Rightarrow>
                if c = CHR ''e'' \<or> c = CHR ''E''
                  then map_option (\<lambda>e. m * pow10 e) (parse_exponent t)
                  else None))"

definition py_float :: "string \<Rightarrow> rat option" where
  "py_float s0 =
     (let s = strip s0 in
      case s of
        [] \<Rightarrow> None
      | c # t \<Rightarrow>
          if c = CHR ''-'' then map_option uminus (parse_unsigned t)
          else if c = CHR ''+'' then parse_unsigned t
          else parse_unsigned s)"

text \<open>\<open>str.split(sep)\<close> for a one-character separator, and \<open>str.count\<close>.\<close>

fun split_on :: "char \<Rightarrow> string \<Rightarrow> string list" where
  "split_on sep [] = [[]]"
| "split_on sep (c # cs) =
     (if c = sep then [] # split_on sep cs
      else (case split_on sep cs of [] \<Rightarrow> [[c]] | p # ps \<Rightarrow> (c # p) # ps))"

definition count_char :: "char \<Rightarrow> string \<Rightarrow> nat" where
  "count_char c s = length (filter (\<lambda>x. x = c) s)"

text \<open>
  The body guarded by \<open>len(parts) == 2\<close>. \<open>final_result\<close> is still \<open>None\<close> when
  it runs; the \<open>if/elif\<close> chain assigns it except for \<open>/\<close> with a zero divisor.
\<close>

definition fallback_result :: "char \<Rightarrow> rat \<Rightarrow> rat \<Rightarrow> pyval" where
  "fallback_result op a b =
     (if op = CHR ''+'' then Number (PFloat (a + b))
      else if op = CHR ''-'' then Number (PFloat (a - b))
      else if op = CHR ''*'' then Number (PFloat (a * b))
      else if op = CHR ''/'' \<and> b \<noteq> 0 then Number (PFloat (a / b))
      else PyNone)"

text \<open>
  \<open>for op in ['+', '-', '*', '/']\<close>: \<open>Some v\<close> is \<open>return v\<close>; a \<open>ValueError\<close> of
  \<open>float\<close> is swallowed by \<open>except: pass\<close> and the loop goes on.
\<close>

fun try_ops :: "char list \<Rightarrow> string \<Rightarrow> pyval option" where
  "try_ops [] expression = None"
| "try_ops (op # ops) expression =
     (if op \<in> set expression then
        (case split_on op expression of
           [l, r] \<Rightarrow>
             (case py_float (strip l) of
                None \<Rightarrow> try_ops ops expression
              | Some a \<Rightarrow>
                  (case py_float (strip r) of
                     None \<Rightarrow> try_ops ops expression
                   | Some b \<Rightarrow> Some (fallback_result op a b)))
         | _ \<Rightarrow> try_ops ops expression)
      else try_ops ops expression)"

definition operator_count :: "string \<Rightarrow> nat" where
  "operator_count expression =
     count_char CHR ''+'' expression + count_char CHR ''-'' expression
       + count_char CHR ''*'' expression + count_char CHR ''/'' expression"

definition loop_fallback :: "string set \<Rightarrow> string \<Rightarrow> pyval option" where
  "loop_fallback previous_expressions expression =
     (if expression \<in> previous_expressions then
        (if operator_count expression = 1 then try_ops ''+-*/'' expression else None)
      else None)"

function reducing_loop :: "'s env \<Rightarrow> reducing_config \<Rightarrow> 's \<Rightarrow> int \<Rightarrow> string set \<Rightarrow> string
    \<Rightarrow> (error + pyval) \<times> 's" where
  "reducing_loop env cfg st i previous_expressions expression0 =
     (case run_prompt env st (reducing_prepare_next_prompt cfg expression0) of (response, st') \<Rightarrow>
        (case reducing_process_tool_calls env response expression0 of
           Inl e \<Rightarrow> (Inl e, st')
         | Inr result \<Rightarrow>
             (let expression = remaining_expression result in
              case loop_fallback previous_expressions expression of
                Some final_result \<Rightarrow> (Inr final_result, st')
              | None \<Rightarrow>
                  if truthy (is_final_step result) then (last_result (results result), st')
                  else if i \<ge> max_llm_calls cfg then
                    (case py_eval env expression of
                       Some final_result \<Rightarrow> (Inr final_result, st')
                     | None \<Rightarrow> (Inl (MaxCallsExceeded (max_llm_calls cfg)), st'))
                  else reducing_loop env cfg st' (i + 1)
                         (insert expression previous_expressions) expression)))"
  by pat_completeness auto
termination
  by (relation "measure (\<lambda>(env, cfg, st, i, prev, expression). nat (max_llm_calls cfg - i))") auto

declare reducing_loop.simps [simp del]

definition reducing_run :: "'s env \<Rightarrow> reducing_config \<Rightarrow> 's \<Rightarrow> string \<Rightarrow> (error + pyval) \<times> 's" where
  "reducing_run env cfg st expression =
     (case validate_expression expression (max_expression_length cfg) of
        Inl e \<Rightarrow> (Inl e, st)
      | Inr ok \<Rightarrow> reducing_loop env cfg st 1 {expression} expression)"

section \<open>A scripted model and a table decoder\<close>

text \<open>
  A model stub that emits a fixed sequence of responses, one per call, and
  nothing once the script is used up.
\<close>

definition scripted :: "tool_call list list \<Rightarrow> message list \<Rightarrow> tool_call list \<times> tool_call list list" where
  "scripted script msgs = (case script of [] \<Rightarrow> ([], []) | r # rest \<Rightarrow> (r, rest))"

text \<open>
  The argument text a model writes for one call, and the object that
  \<open>json.loads\<close> decodes it to.
\<close>

definition payload :: "int \<Rightarrow> int \<Rightarrow> string \<Rightarrow> bool \<Rightarrow> string" where
  \<open>payload a b op fin =
     ''{"a": '' @ str_int a @ '', "b": '' @ str_int b @ '', "op": "'' @ op
       @ ''", "is_final_step": '' @ (if fin then ''true'' else ''false'') @ ''}''\<close>

definition decoded :: "int \<Rightarrow> int \<Rightarrow> string \<Rightarrow> bool \<Rightarrow> json" where
  "decoded a b op fin =
     JObj [(''a'', JNum (PInt a)), (''b'', JNum (PInt b)), (''op'', JStr op),
           (''is_final_step'', JBool fin)]"

definition tool :: "string \<Rightarrow> string \<Rightarrow> tool_call" where
  "tool cid args = \<lparr>call_id = cid, fname = ''calculate'', arguments = args\<rparr>"

text \<open>
  A stand-in for \<open>repr\<close> of a float: right for integral values below \<open>10^16\<close>
  (\<open>4.0\<close>) and for values of at most six significant digits.
\<close>

definition short_repr :: "rat \<Rightarrow> string" where
  "short_repr q = (if of_int \<lfloor>q\<rfloor> = q then str_int \<lfloor>q\<rfloor> @ ''.0'' else format_g q)"

text \<open>
  An environment given by tables: a decoder that knows the listed payloads (any
  other text is a decode error), an evaluator that knows the listed expressions
  (any other text raises), and the scripted model.
\<close>

definition table_env :: "(string \<times> json) list \<Rightarrow> (string \<times> pyval) list
    \<Rightarrow> (tool_call list list) env" where
  "table_env decode_table eval_table =
     \<lparr>json_loads = map_of decode_table,
      float_repr = short_repr,
      py_eval = map_of eval_table,
      run_prompt = scripted\<rparr>"

definition calls_table :: "(int \<times> int \<times> string \<times> bool) list \<Rightarrow> (string \<times> json) list" where
  "calls_table cs = map (\<lambda>(a, b, op, fin). (payload a b op fin, decoded a b op fin)) cs"

definition one_call_turns :: "(int \<times> int \<times> string \<times> bool) list \<Rightarrow> tool_call list list" where
  "one_call_turns cs = map (\<lambda>(a, b, op, fin). [tool ''call_1'' (payload a b op fin)]) cs"

text \<open>Configurations with a given call budget (the prompt texts are arbitrary).\<close>

definition stepwise_cfg :: "int \<Rightarrow> stepwise_config" where
  "stepwise_cfg n =
     \<lparr>max_expression_length = 100, system_prompt = ''You are a calculator.'',
      max_llm_calls = n,
      subsequent_prompt = ''Expression: {EXPRESSION} Steps so far: {STEPS_SO_FAR}'',
      initial_prompt = ''Expression: {EXPRESSION}'',
      return_tool_call_msgs = True, append_messages = True\<rparr>"

definition reducing_cfg :: "int \<Rightarrow> reducing_config" where
  "reducing_cfg n =
     \<lparr>max_expression_length = 100, system_prompt = ''You are a calculator.'',
      max_llm_calls = n, prompt = ''Expression: {EXPRESSION}''\<rparr>"

text \<open>The round-trip scenario: four turns of one call each.\<close>

definition round_trip_calls :: "(int \<times> int \<times> string \<times> bool) list" where
  "round_trip_calls =
     [(5, 3, ''*'', False), (8, 2, ''/'', False), (10, 15, ''+'', False), (25, 4, ''-'', True)]"

text \<open>A payload whose \<open>op\<close> is a number, with its decoded object.\<close>

definition numeric_op_payload :: string where
  \<open>numeric_op_payload = ''{"a": 1, "b": 2, "op": 5, "is_final_step": true}''\<close>

definition numeric_op_decoded :: json where
  "numeric_op_decoded =
     JObj [(''a'', JNum (PInt 1)), (''b'', JNum (PInt 2)), (''op'', JNum (PInt 5)),
           (''is_final_step'', JBool True)]"

section \<open>Properties of the calculator\<close>

lemma strip_single [simp]: "\<not> is_space c \<Longrightarrow> strip [c] = [c]"
  by (simp add: strip_def)

lemma not_space_ops [simp]:
  "\<not> is_space CHR ''+''" "\<not> is_space CHR ''-''" "\<not> is_space CHR ''*''" "\<not> is_space CHR ''/''"
  by (simp_all add: is_space_def)



section \<open>Properties of input validation\<close>




section \<open>Properties of the matcher\<close>

lemma rx_match_step:
  assumes "cs = m @ mid" "rx_match qs (if m = [] then Some c else Some (last m)) mid = Some r"
  shows "\<exists>m' mid'. c # cs = m' @ mid' \<and>
           rx_match qs (if m' = [] then prev else Some (last m')) mid' = Some r"
  using assms by (intro exI [of _ "c # m"] exI [of _ mid]) auto

lemma rx_match_here:
  assumes "rx_match qs prev s = Some r"
  shows "\<exists>m mid. s = m @ mid \<and> rx_match qs (if m = [] then prev else Some (last m)) mid = Some r"
  using assms by (intro exI [of _ "[]"] exI [of _ s]) auto

text \<open>A match of a concatenated pattern splits into a match of its first part
  followed by a match of its second part.\<close>

lemma rx_match_append:
  "rx_match (ps @ qs) prev s = Some r \<Longrightarrow>
   \<exists>m mid. s = m @ mid \<and> rx_match qs (if m = [] then prev else Some (last m)) mid = Some r"
proof (induction s arbitrary: ps prev r)
  case Nil
  then show ?case
  proof (induction ps arbitrary: prev)
    case Nil
    then show ?case by (simp add: rx_match_here)
  next
    case (Cons p ps)
    then show ?case by (cases p) (auto split: if_splits)
  qed
next
  case (Cons c cs)
  note outer = Cons.IH
  from Cons.prems show ?case
  proof (induction ps arbitrary: prev r)
    case Nil
    then show ?case by (simp add: rx_match_here)
  next
    case (Cons p ps)
    show ?case
    proof (cases p)
      case (One a)
      with Cons.prems have "rx_match (ps @ qs) (Some c) cs = Some r"
        by (auto split: if_splits)
      from outer [OF this] obtain m mid where
        "cs = m @ mid" "rx_match qs (if m = [] then Some c else Some (last m)) mid = Some r"
        by blast
      then show ?thesis by (rule rx_match_step)
    next
      case (Opt a)
      with Cons.prems consider "rx_match (ps @ qs) (Some c) cs = Some r"
        | "rx_match (ps @ qs) prev (c # cs) = Some r"
        by (auto split: if_splits option.splits)
      then show ?thesis
      proof cases
        case 1
        from outer [OF this] obtain m mid where
          "cs = m @ mid" "rx_match qs (if m = [] then Some c else Some (last m)) mid = Some r"
          by blast
        then show ?thesis by (rule rx_match_step)
      next
        case 2
        from Cons.IH [OF this] show ?thesis .
      qed
    next
      case (Star a)
      with Cons.prems consider "rx_match ((Star a # ps) @ qs) (Some c) cs = Some r"
        | "rx_match (ps @ qs) prev (c # cs) = Some r"
        by (auto split: if_splits option.splits)
      then show ?thesis
      proof cases
        case 1
        from outer [OF this] obtain m mid where
          "cs = m @ mid" "rx_match qs (if m = [] then Some c else Some (last m)) mid = Some r"
          by blast
        then show ?thesis by (rule rx_match_step)
      next
        case 2
        from Cons.IH [OF this] show ?thesis .
      qed
    next
      case (Plus a)
      with Cons.prems have "rx_match ((Star a # ps) @ qs) (Some c) cs = Some r"
        by (auto split: if_splits)
      from outer [OF this] obtain m mid where
        "cs = m @ mid" "rx_match qs (if m = [] then Some c else Some (last m)) mid = Some r"
        by blast
      then show ?thesis by (rule rx_match_step)
    next
      case WordBoundary
      with Cons.prems have "rx_match (ps @ qs) prev (c # cs) = Some r"
        by (auto split: if_splits)
      from Cons.IH [OF this] show ?thesis .
    qed
  qed
qed

lemma rx_match_suffix: "rx_match p prev s = Some r \<Longrightarrow> \<exists>m. s = m @ r"
  using rx_match_append [of p "[]" prev s r] by auto

text \<open>What \<open>rx_find\<close> returns is a split of the text at a match.\<close>

lemma rx_find_split:
  "rx_find p pre0 s = Some (pre, m, post) \<Longrightarrow>
   pre0 @ s = pre @ m @ post \<and> rx_match p (last_opt pre) (m @ post) = Some post"
proof (induction s arbitrary: pre0)
  case Nil
  then show ?case
    by (auto simp: last_opt_def split: option.splits dest: rx_match_suffix)
next
  case (Cons c cs)
  show ?case
  proof (cases "rx_match p (last_opt pre0) (c # cs)")
    case None
    with Cons.prems have "rx_find p (pre0 @ [c]) cs = Some (pre, m, post)"
      by simp
    from Cons.IH [OF this] show ?thesis by simp
  next
    case (Some r)
    with Cons.prems have eq: "pre = pre0" "m = take (length (c # cs) - length r) (c # cs)" "post = r"
      by auto
    from rx_match_suffix [OF Some] obtain m' where m': "c # cs = m' @ r" by blast
    then have "m = m'" using eq(2) by simp
    with m' eq Some show ?thesis by (simp add: last_opt_def)
  qed
qed

text \<open>No match starts left of the one that \<open>rx_find\<close> returns.\<close>

lemma rx_find_leftmost:
  "rx_find p pre0 s = Some (pre, m, post) \<Longrightarrow> pre0 @ s = u @ v \<Longrightarrow>
   length pre0 \<le> length u \<Longrightarrow> length u < length pre \<Longrightarrow>
   rx_match p (last_opt u) v = None"
proof (induction s arbitrary: pre0)
  case Nil
  then show ?case by (auto split: option.splits)
next
  case (Cons c cs)
  show ?case
  proof (cases "rx_match p (last_opt pre0) (c # cs)")
    case None
    with Cons.prems(1) have f: "rx_find p (pre0 @ [c]) cs = Some (pre, m, post)"
      by simp
    show ?thesis
    proof (cases "length u = length pre0")
      case True
      with Cons.prems(2) have "u = pre0" "v = c # cs" by auto
      with None show ?thesis by (simp add: last_opt_def)
    next
      case False
      with Cons.prems(3) have "length (pre0 @ [c]) \<le> length u" by simp
      from Cons.IH [OF f _ this Cons.prems(4)] Cons.prems(2) show ?thesis by simp
    qed
  next
    case (Some r)
    with Cons.prems show ?thesis by simp
  qed
qed

section \<open>Properties of pattern compilation\<close>

lemma digit_char_digit: "0 \<le> d \<Longrightarrow> d < 10 \<Longrightarrow> is_digit (digit_char d)"
proof -
  assume "0 \<le> d" "d < 10"
  then have "d = 0 \<or> d = 1 \<or> d = 2 \<or> d = 3 \<or> d = 4 \<or> d = 5 \<or> d = 6 \<or> d = 7 \<or> d = 8 \<or> d = 9"
    by arith
  then show ?thesis by (auto simp: is_digit_def digit_char_def)
qed

lemma digits_of_digits: "0 \<le> n \<Longrightarrow> list_all is_digit (digits_of n) \<and> digits_of n \<noteq> []"
proof (induction n rule: digits_of.induct)
  case (1 n)
  show ?case
  proof (cases "n < 10")
    case True
    with "1.prems" show ?thesis
      by (subst (1 2) digits_of.simps) (simp add: digit_char_digit)
  next
    case False
    with "1.prems" "1.IH" have "list_all is_digit (digits_of (n div 10))" by simp
    moreover have "is_digit (digit_char (n mod 10))"
      by (rule digit_char_digit) simp_all
    ultimately show ?thesis
      using False by (subst (1 2) digits_of.simps) simp
  qed
qed

lemma digit_cases:
  "is_digit c \<Longrightarrow> c = CHR ''0'' \<or> c = CHR ''1'' \<or> c = CHR ''2'' \<or> c = CHR ''3'' \<or> c = CHR ''4''
     \<or> c = CHR ''5'' \<or> c = CHR ''6'' \<or> c = CHR ''7'' \<or> c = CHR ''8'' \<or> c = CHR ''9''"
  by (simp add: is_digit_def)

lemma digit_plain: "is_digit c \<Longrightarrow> c \<noteq> CHR 0x5C \<and> rx_plain c = Some (TAtom (Lit c))"
  by (drule digit_cases) (elim disjE; simp add: rx_plain_def)

lemma digit_word: "is_digit c \<Longrightarrow> is_word c"
  by (simp add: is_word_def)

lemma tokens_digits:
  "list_all is_digit ds \<Longrightarrow>
   rx_tokens (ds @ rest) = map_option ((@) (map (\<lambda>c. TAtom (Lit c)) ds)) (rx_tokens rest)"
proof (induction ds)
  case Nil
  then show ?case by (simp add: option.map_ident)
next
  case (Cons d ds)
  then show ?case
    using digit_plain [of d] by (simp add: option.map_comp comp_def)
qed

lemma items_atom:
  "(\<forall>q ts'. rest \<noteq> TQuant q # ts') \<Longrightarrow>
   rx_items (TAtom a # rest) = map_option ((#) (One a)) (rx_items rest)"
proof (cases rest)
  case Nil
  then show ?thesis by simp
next
  case (Cons t ts)
  assume "\<forall>q ts'. rest \<noteq> TQuant q # ts'"
  with Cons show ?thesis by (cases t) simp_all
qed

lemma items_boundary:
  "(\<forall>q ts'. rest \<noteq> TQuant q # ts') \<Longrightarrow>
   rx_items (TBoundary # rest) = map_option ((#) WordBoundary) (rx_items rest)"
proof (cases rest)
  case Nil
  then show ?thesis by simp
next
  case (Cons t ts)
  assume "\<forall>q ts'. rest \<noteq> TQuant q # ts'"
  with Cons show ?thesis by (cases t) simp_all
qed

lemma items_star:
  "(\<forall>q ts'. rest \<noteq> TQuant q # ts') \<Longrightarrow>
   rx_items (TAtom a # TQuant CHR ''*'' # rest) = map_option ((#) (Star a)) (rx_items rest)"
proof (cases rest)
  case Nil
  then show ?thesis by (simp add: quantify_def)
next
  case (Cons t ts)
  assume "\<forall>q ts'. rest \<noteq> TQuant q # ts'"
  with Cons show ?thesis by (cases t) (simp_all add: quantify_def)
qed

lemma items_lits:
  "(\<forall>q ts'. ts \<noteq> TQuant q # ts') \<Longrightarrow>
   rx_items (map (\<lambda>c. TAtom (Lit c)) ds @ ts) = map_option ((@) (map (\<lambda>c. One (Lit c)) ds)) (rx_items ts)"
proof (induction ds)
  case Nil
  then show ?case by (simp add: option.map_ident)
next
  case (Cons d ds)
  have "\<forall>q ts'. map (\<lambda>c. TAtom (Lit c)) ds @ ts \<noteq> TQuant q # ts'"
    using Cons.prems by (cases ds) auto
  then have "rx_items (TAtom (Lit d) # (map (\<lambda>c. TAtom (Lit c)) ds @ ts))
      = map_option ((#) (One (Lit d))) (rx_items (map (\<lambda>c. TAtom (Lit c)) ds @ ts))"
    by (rule items_atom)
  with Cons show ?case by (simp add: option.map_comp comp_def)
qed

lemma lits_no_quant:
  "(\<forall>q ts'. ts \<noteq> TQuant q # ts') \<Longrightarrow> (\<forall>q ts'. map (\<lambda>c. TAtom (Lit c)) ds @ ts \<noteq> TQuant q # ts')"
  by (cases ds) auto

lemma tokens_end:
  "rx_tokens (p @ [CHR '')'']) = Some ts \<Longrightarrow> \<exists>ts'. ts = ts' @ [TAtom (Lit CHR '')'')]"
proof (induction p arbitrary: ts rule: rx_tokens.induct)
  case 1
  then show ?case by (simp add: rx_plain_def)
next
  case (2 c cs)
  show ?case
  proof (cases "c = CHR 0x5C")
    case True
    show ?thesis
    proof (cases cs)
      case Nil
      with True "2.prems" show ?thesis
        by (auto simp: rx_escape_def is_word_def is_digit_def)
    next
      case (Cons d ds)
      with True "2.prems" obtain t ts0 where
        t: "rx_escape d = Some t" and ts0: "rx_tokens (ds @ [CHR '')'']) = Some ts0" and
        ts: "ts = t # ts0"
        by (auto split: option.splits)
      from "2.IH"(1) [OF True Cons t ts0] ts show ?thesis by auto
    qed
  next
    case False
    with "2.prems" obtain t ts0 where
      t: "rx_plain c = Some t" and ts0: "rx_tokens (cs @ [CHR '')'']) = Some ts0" and
      ts: "ts = t # ts0"
      by (auto split: option.splits)
    from "2.IH"(2) [OF False t ts0] ts show ?thesis by auto
  qed
qed

lemma items_end:
  "rx_items (ts @ [TAtom a]) = Some pp \<Longrightarrow> \<exists>pp'. pp = pp' @ [One a]"
  by (induction ts arbitrary: pp rule: rx_items.induct) auto

lemma compiled_paren_shape:
  assumes "compiled (parentheses_pattern a b op) = Inr pp"
  shows "\<exists>p1 p2. pp = One (Lit CHR ''('') # p1 \<and> pp = p2 @ [One (Lit CHR '')'')]"
proof -
  from assms obtain ts where
    ts: "rx_tokens (parentheses_pattern a b op) = Some ts" and it: "rx_items ts = Some pp"
    by (auto simp: compiled_def rx_compile_def split: option.splits)
  have "\<exists>p. parentheses_pattern a b op = p @ [CHR '')'']"
    by (simp add: parentheses_pattern_def)
  with ts tokens_end obtain ts' where ts': "ts = ts' @ [TAtom (Lit CHR '')'')]"
    by metis
  with it items_end have e: "\<exists>p2. pp = p2 @ [One (Lit CHR '')'')]"
    by blast
  from ts obtain ts1 where "ts = TAtom (Lit CHR ''('') # TAtom Space # ts1"
    by (auto simp: parentheses_pattern_def ws_star_def rx_escape_def is_word_def is_digit_def
        split: option.splits)
  with it have "\<exists>p1. pp = One (Lit CHR ''('') # p1"
    by auto
  with e show ?thesis by blast
qed

lemma paren_match_shape:
  assumes c: "compiled (parentheses_pattern a b op) = Inr pp"
    and f: "rx_find pp [] e = Some (pre, m, post)"
  shows "e = pre @ m @ post \<and> (\<exists>m'. m = CHR ''('' # m' @ [CHR '')''])"
proof -
  from rx_find_split [OF f] have e: "e = pre @ m @ post"
    and mt: "rx_match pp (last_opt pre) (m @ post) = Some post"
    by simp_all
  from compiled_paren_shape [OF c] obtain p1 p2 where
    p1: "pp = One (Lit CHR ''('') # p1" and p2: "pp = p2 @ [One (Lit CHR '')'')]"
    by blast
  from mt p1 obtain s1 where s1: "m @ post = CHR ''('' # s1"
    by (cases "m @ post") (auto split: if_splits)
  from mt p2 rx_match_append [of p2 "[One (Lit CHR '')'')]" "last_opt pre" "m @ post" post]
  obtain m1 mid where m1: "m @ post = m1 @ mid"
    and md: "rx_match [One (Lit CHR '')'')] (if m1 = [] then last_opt pre else Some (last m1)) mid = Some post"
    by auto
  from md have "mid = CHR '')'' # post"
    by (cases mid) (auto split: if_splits)
  with m1 have m: "m = m1 @ [CHR '')'']" by simp
  with s1 obtain m' where "m1 = CHR ''('' # m'"
    by (cases m1) auto
  with m e show ?thesis by simp
qed

section \<open>Properties of expression reduction\<close>

lemma reduce_parenthesised:
  assumes "compiled (parentheses_pattern a b op) = Inr pp"
    and "CHR ''('' \<in> set e" "CHR '')'' \<in> set e"
    and "rx_find pp [] e = Some (pre, m, post)"
  shows "reduce_expression e a b op r = Inr (pre @ float_to_str r @ post)"
  using assms by (simp add: reduce_expression_def re_search_def re_sub1_def)

lemma reduce_not_parenthesised:
  assumes "compiled (parentheses_pattern a b op) = Inr pp"
    and "\<not> (CHR ''('' \<in> set e \<and> CHR '')'' \<in> set e \<and> re_search pp e)"
  shows "reduce_expression e a b op r = reduce_standard e a b op r"
  using assms by (auto simp: reduce_expression_def)

lemma reduce_standard_cases:
  assumes "compiled (standard_pattern a b op) = Inr sp"
    and "compiled (op_pattern a b op) = Inr lp"
  shows "reduce_standard e a b op r =
           Inr (if re_sub1 sp (float_to_str r) e = e then re_sub1 lp (float_to_str r) e
                else re_sub1 sp (float_to_str r) e)"
  using assms by (simp add: reduce_standard_def Let_def)

lemma re_sub1_found: "rx_find p [] e = Some (pre, m, post) \<Longrightarrow> re_sub1 p repl e = pre @ repl @ post"
  by (simp add: re_sub1_def)

lemma re_sub1_not_found: "\<not> re_search p e \<Longrightarrow> re_sub1 p repl e = e"
  by (auto simp: re_sub1_def re_search_def split: option.splits)

text \<open>
  C8. With the three patterns compiled: when the expression holds both
  parenthesis characters and the parenthesised pattern is found, the result is
  the text with exactly that group, from \<open>(\<close> to \<open>)\<close>, replaced by the rendered
  result, whatever bare occurrences there are. Otherwise the leftmost match of
  the bare pattern is replaced; when that leaves the expression unchanged the
  result is the substitution of the looser pattern; and when neither pattern is
  found the expression is returned as it is.
\<close>

theorem reduce_expression_rule_order:
  assumes pp: "compiled (parentheses_pattern a b op) = Inr pp"
    and sp: "compiled (standard_pattern a b op) = Inr sp"
    and lp: "compiled (op_pattern a b op) = Inr lp"
  shows "(CHR ''('' \<in> set e \<and> CHR '')'' \<in> set e \<and> rx_find pp [] e = Some (pre, m, post) \<longrightarrow>
            reduce_expression e a b op r = Inr (pre @ float_to_str r @ post)
            \<and> e = pre @ m @ post \<and> (\<exists>m'. m = CHR ''('' # m' @ [CHR '')'']))
       \<and> (\<not> (CHR ''('' \<in> set e \<and> CHR '')'' \<in> set e \<and> re_search pp e) \<longrightarrow>
            (rx_find sp [] e = Some (pre, m, post) \<and> pre @ float_to_str r @ post \<noteq> e \<longrightarrow>
               reduce_expression e a b op r = Inr (pre @ float_to_str r @ post)
               \<and> e = pre @ m @ post
               \<and> (\<forall>u v. e = u @ v \<and> length u < length pre \<longrightarrow> rx_match sp (last_opt u) v = None))
          \<and> (re_sub1 sp (float_to_str r) e = e \<longrightarrow>
               reduce_expression e a b op r = Inr (re_sub1 lp (float_to_str r) e))
          \<and> (\<not> re_search sp e \<and> \<not> re_search lp e \<longrightarrow> reduce_expression e a b op r = Inr e))"
proof (intro conjI impI)
  assume h: "CHR ''('' \<in> set e \<and> CHR '')'' \<in> set e \<and> rx_find pp [] e = Some (pre, m, post)"
  then show "reduce_expression e a b op r = Inr (pre @ float_to_str r @ post)"
    using reduce_parenthesised [OF pp] by blast
  from h paren_match_shape [OF pp] show "e = pre @ m @ post"
    by blast
  from h paren_match_shape [OF pp] show "\<exists>m'. m = CHR ''('' # m' @ [CHR '')'']"
    by blast
next
  assume n: "\<not> (CHR ''('' \<in> set e \<and> CHR '')'' \<in> set e \<and> re_search pp e)"
  note std = reduce_not_parenthesised [OF pp n, of r] reduce_standard_cases [OF sp lp, of e r]
  {
    assume f: "rx_find sp [] e = Some (pre, m, post) \<and> pre @ float_to_str r @ post \<noteq> e"
    then show "reduce_expression e a b op r = Inr (pre @ float_to_str r @ post)"
      using std by (simp add: re_sub1_found)
    from f rx_find_split [of sp "[]" e pre m post] show "e = pre @ m @ post"
      by simp
    from f rx_find_leftmost [of sp "[]" e pre m post]
    show "\<forall>u v. e = u @ v \<and> length u < length pre \<longrightarrow> rx_match sp (last_opt u) v = None"
      by simp
  }
  {
    assume "re_sub1 sp (float_to_str r) e = e"
    then show "reduce_expression e a b op r = Inr (re_sub1 lp (float_to_str r) e)"
      using std by simp
  }
  {
    assume "\<not> re_search sp e \<and> \<not> re_search lp e"
    then show "reduce_expression e a b op r = Inr e"
      using std by (simp add: re_sub1_not_found)
  }
qed

theorem reduce_expression_rule_order_witness:
  "reduce_expression ''5 + 3 * ( 5+ 3 )'' (PInt 5) (PInt 3) ''+'' (PInt 8) = Inr ''5 + 3 * 8''
   \<and> reduce_expression ''5 + 3 * 2'' (PInt 5) (PInt 3) ''+'' (PInt 8) = Inr ''8 * 2''
   \<and> reduce_expression ''1 + 2'' (PInt 5) (PInt 3) ''+'' (PInt 8) = Inr ''1 + 2''"
proof -
  let ?pp = "[One (Lit CHR ''(''), Star Space, WordBoundary, One (Lit CHR ''5''), WordBoundary,
               Star Space, One (Lit CHR ''+''), Star Space, WordBoundary, One (Lit CHR ''3''),
               WordBoundary, Star Space, One (Lit CHR '')'')]"
  let ?sp = "[WordBoundary, One (Lit CHR ''5''), WordBoundary, Star Space, One (Lit CHR ''+''),
               Star Space, WordBoundary, One (Lit CHR ''3''), WordBoundary]"
  let ?lp = "[One (Lit CHR ''5''), Star Space, One (Lit CHR ''+''), Star Space, One (Lit CHR ''3'')]"
  have pp: "compiled (parentheses_pattern (PInt 5) (PInt 3) ''+'') = Inr ?pp"
    by code_simp
  have sp: "compiled (standard_pattern (PInt 5) (PInt 3) ''+'') = Inr ?sp"
    by code_simp
  have lp: "compiled (op_pattern (PInt 5) (PInt 3) ''+'') = Inr ?lp"
    by code_simp
  have f1: "rx_find ?pp [] ''5 + 3 * ( 5+ 3 )'' = Some (''5 + 3 * '', ''( 5+ 3 )'', '''')"
    by code_simp
  have 1: "reduce_expression ''5 + 3 * ( 5+ 3 )'' (PInt 5) (PInt 3) ''+'' (PInt 8) = Inr ''5 + 3 * 8''"
  proof -
    have "float_to_str (PInt 8) = ''8''" by code_simp
    with reduce_expression_rule_order [OF pp sp lp, of "''5 + 3 * ( 5+ 3 )''" "''5 + 3 * ''"
        "''( 5+ 3 )''" "''''" "PInt 8"] f1
    show ?thesis by simp
  qed
  have f2: "rx_find ?sp [] ''5 + 3 * 2'' = Some ('''', ''5 + 3'', '' * 2'')"
    by code_simp
  have 2: "reduce_expression ''5 + 3 * 2'' (PInt 5) (PInt 3) ''+'' (PInt 8) = Inr ''8 * 2''"
  proof -
    have "float_to_str (PInt 8) = ''8''" by code_simp
    with reduce_expression_rule_order [OF pp sp lp, of "''5 + 3 * 2''" "''''"
        "''5 + 3''" "'' * 2''" "PInt 8"] f2
    show ?thesis by simp
  qed
  have n3: "\<not> re_search ?sp ''1 + 2''" "\<not> re_search ?lp ''1 + 2''"
    by code_simp+
  have 3: "reduce_expression ''1 + 2'' (PInt 5) (PInt 3) ''+'' (PInt 8) = Inr ''1 + 2''"
    using reduce_expression_rule_order [OF pp sp lp, of "''1 + 2''" "[]" "[]" "[]" "PInt 8"] n3
    by simp
  show ?thesis using 1 2 3 by simp
qed

lemma tokens_escaped_op:
  assumes "op \<in> set valid_ops"
  shows "rx_tokens (re_escape op @ rest) = map_option ((#) (TAtom (Lit (hd op)))) (rx_tokens rest)"
  using assms
  by (auto simp: valid_ops_def re_escape_def rx_escape_def rx_plain_def is_word_def is_digit_def)

lemma tokens_number_pattern:
  assumes "0 \<le> n"
  shows "rx_tokens (create_number_pattern (PInt n) @ rest)
           = map_option ((@) (TBoundary # map (\<lambda>c. TAtom (Lit c)) (digits_of n) @ [TBoundary]))
               (rx_tokens rest)"
  using assms digits_of_digits [OF assms]
  by (cases "rx_tokens rest")
     (simp_all add: create_number_pattern_def str_int_def tokens_digits rx_escape_def)

lemma tokens_ws_star:
  "rx_tokens (ws_star @ rest) = map_option ((@) [TAtom Space, TQuant CHR ''*'']) (rx_tokens rest)"
  by (cases "rx_tokens rest") (simp_all add: ws_star_def rx_escape_def rx_plain_def)

lemma items_number:
  assumes "\<forall>q ts'. ts \<noteq> TQuant q # ts'"
  shows "rx_items (TBoundary # map (\<lambda>c. TAtom (Lit c)) ds @ TBoundary # ts)
           = map_option ((@) (WordBoundary # map (\<lambda>c. One (Lit c)) ds @ [WordBoundary])) (rx_items ts)"
proof -
  have "rx_items (TBoundary # map (\<lambda>c. TAtom (Lit c)) ds @ TBoundary # ts)
          = map_option ((#) WordBoundary) (rx_items (map (\<lambda>c. TAtom (Lit c)) ds @ TBoundary # ts))"
    by (rule items_boundary) (simp add: lits_no_quant)
  also have "rx_items (map (\<lambda>c. TAtom (Lit c)) ds @ TBoundary # ts)
          = map_option ((@) (map (\<lambda>c. One (Lit c)) ds)) (rx_items (TBoundary # ts))"
    by (rule items_lits) simp
  also have "rx_items (TBoundary # ts) = map_option ((#) WordBoundary) (rx_items ts)"
    using assms by (rule items_boundary)
  finally show ?thesis by (cases "rx_items ts") simp_all
qed

text \<open>The compiled form of the bare pattern for non-negative integer operands.\<close>

lemma compile_standard_int:
  assumes "0 \<le> a" "0 \<le> b" "op \<in> set valid_ops"
  shows "compiled (standard_pattern (PInt a) (PInt b) op)
           = Inr ((WordBoundary # map (\<lambda>c. One (Lit c)) (digits_of a) @ [WordBoundary])
                  @ [Star Space, One (Lit (hd op)), Star Space]
                  @ (WordBoundary # map (\<lambda>c. One (Lit c)) (digits_of b) @ [WordBoundary]))"
proof -
  have t: "rx_tokens (standard_pattern (PInt a) (PInt b) op)
      = Some ((TBoundary # map (\<lambda>c. TAtom (Lit c)) (digits_of a) @ [TBoundary])
              @ [TAtom Space, TQuant CHR ''*'', TAtom (Lit (hd op)), TAtom Space, TQuant CHR ''*'']
              @ (TBoundary # map (\<lambda>c. TAtom (Lit c)) (digits_of b) @ [TBoundary]))"
    using tokens_number_pattern [OF assms(1)] tokens_number_pattern [OF assms(2), of "[]"]
      tokens_escaped_op [OF assms(3)] tokens_ws_star
    by (simp add: standard_pattern_def)
  have i3: "rx_items (TBoundary # map (\<lambda>c. TAtom (Lit c)) (digits_of b) @ [TBoundary])
      = Some (WordBoundary # map (\<lambda>c. One (Lit c)) (digits_of b) @ [WordBoundary])"
    using items_number [of "[]" "digits_of b"] by simp
  have i2: "rx_items ([TAtom Space, TQuant CHR ''*'', TAtom (Lit (hd op)), TAtom Space, TQuant CHR ''*'']
              @ (TBoundary # map (\<lambda>c. TAtom (Lit c)) (digits_of b) @ [TBoundary]))
      = Some ([Star Space, One (Lit (hd op)), Star Space]
              @ (WordBoundary # map (\<lambda>c. One (Lit c)) (digits_of b) @ [WordBoundary]))"
    using i3 by (simp add: items_star items_atom quantify_def)
  have "rx_items ((TBoundary # map (\<lambda>c. TAtom (Lit c)) (digits_of a) @ [TBoundary])
              @ [TAtom Space, TQuant CHR ''*'', TAtom (Lit (hd op)), TAtom Space, TQuant CHR ''*'']
              @ (TBoundary # map (\<lambda>c. TAtom (Lit c)) (digits_of b) @ [TBoundary]))
      = Some ((WordBoundary # map (\<lambda>c. One (Lit c)) (digits_of a) @ [WordBoundary])
                  @ [Star Space, One (Lit (hd op)), Star Space]
                  @ (WordBoundary # map (\<lambda>c. One (Lit c)) (digits_of b) @ [WordBoundary]))"
    using items_number [of "[TAtom Space, TQuant CHR ''*'', TAtom (Lit (hd op)), TAtom Space, TQuant CHR ''*'']
              @ (TBoundary # map (\<lambda>c. TAtom (Lit c)) (digits_of b) @ [TBoundary])" "digits_of a"] i2
    by simp
  with t show ?thesis
    by (simp add: compiled_def rx_compile_def)
qed

lemma compile_parentheses_int:
  assumes "0 \<le> a" "0 \<le> b" "op \<in> set valid_ops"
  shows "\<exists>pp. compiled (parentheses_pattern (PInt a) (PInt b) op) = Inr pp"
proof -
  have t: "rx_tokens (parentheses_pattern (PInt a) (PInt b) op)
      = Some (TAtom (Lit CHR ''('') # TAtom Space # TQuant CHR ''*''
              # (TBoundary # map (\<lambda>c. TAtom (Lit c)) (digits_of a) @ [TBoundary])
              @ [TAtom Space, TQuant CHR ''*'', TAtom (Lit (hd op)), TAtom Space, TQuant CHR ''*'']
              @ (TBoundary # map (\<lambda>c. TAtom (Lit c)) (digits_of b) @ [TBoundary])
              @ [TAtom Space, TQuant CHR ''*'', TAtom (Lit CHR '')'')])"
    using tokens_number_pattern [OF assms(1)] tokens_number_pattern [OF assms(2)]
      tokens_escaped_op [OF assms(3)] tokens_ws_star
    by (simp add: parentheses_pattern_def rx_escape_def is_word_def is_digit_def)
  have i4: "rx_items [TAtom Space, TQuant CHR ''*'', TAtom (Lit CHR '')'')]
      = Some [Star Space, One (Lit CHR '')'')]"
    by (simp add: quantify_def)
  have i3: "rx_items ((TBoundary # map (\<lambda>c. TAtom (Lit c)) (digits_of b) @ [TBoundary])
              @ [TAtom Space, TQuant CHR ''*'', TAtom (Lit CHR '')'')]) \<noteq> None"
    using items_number [of "[TAtom Space, TQuant CHR ''*'', TAtom (Lit CHR '')'')]" "digits_of b"] i4
    by simp
  then have i2: "rx_items ([TAtom Space, TQuant CHR ''*'', TAtom (Lit (hd op)), TAtom Space, TQuant CHR ''*'']
              @ (TBoundary # map (\<lambda>c. TAtom (Lit c)) (digits_of b) @ [TBoundary])
              @ [TAtom Space, TQuant CHR ''*'', TAtom (Lit CHR '')'')]) \<noteq> None"
    by (auto simp: items_star items_atom quantify_def)
  then have i1: "rx_items ((TBoundary # map (\<lambda>c. TAtom (Lit c)) (digits_of a) @ [TBoundary])
              @ [TAtom Space, TQuant CHR ''*'', TAtom (Lit (hd op)), TAtom Space, TQuant CHR ''*'']
              @ (TBoundary # map (\<lambda>c. TAtom (Lit c)) (digits_of b) @ [TBoundary])
              @ [TAtom Space, TQuant CHR ''*'', TAtom (Lit CHR '')'')]) \<noteq> None"
    using items_number [of "[TAtom Space, TQuant CHR ''*'', TAtom (Lit (hd op)), TAtom Space, TQuant CHR ''*'']
              @ (TBoundary # map (\<lambda>c. TAtom (Lit c)) (digits_of b) @ [TBoundary])
              @ [TAtom Space, TQuant CHR ''*'', TAtom (Lit CHR '')'')]" "digits_of a"]
    by auto
  then have "rx_items (TAtom (Lit CHR ''('') # TAtom Space # TQuant CHR ''*''
              # (TBoundary # map (\<lambda>c. TAtom (Lit c)) (digits_of a) @ [TBoundary])
              @ [TAtom Space, TQuant CHR ''*'', TAtom (Lit (hd op)), TAtom Space, TQuant CHR ''*'']
              @ (TBoundary # map (\<lambda>c. TAtom (Lit c)) (digits_of b) @ [TBoundary])
              @ [TAtom Space, TQuant CHR ''*'', TAtom (Lit CHR '')'')]) \<noteq> None"
    by (auto simp: items_star items_atom quantify_def)
  with t show ?thesis
    by (auto simp: compiled_def rx_compile_def split: option.splits)
qed

lemma standard_match_bounds:
  assumes a: "0 \<le> a" and b: "0 \<le> b" and op: "op \<in> set valid_ops"
    and c: "compiled (standard_pattern (PInt a) (PInt b) op) = Inr sp"
    and f: "rx_find sp [] e = Some (pre, m, post)"
  shows "e = pre @ m @ post \<and> \<not> word_opt (last_opt pre) \<and> \<not> word_opt (next_char post)
         \<and> m \<noteq> [] \<and> is_digit (hd m) \<and> is_digit (last m)"
proof -
  from digits_of_digits [OF a] obtain d da where da: "digits_of a = d # da" and d: "is_digit d"
    by (cases "digits_of a") auto
  from digits_of_digits [OF b] obtain d' db where db: "digits_of b = db @ [d']" and d': "is_digit d'"
    by (cases "digits_of b" rule: rev_cases) auto
  from c compile_standard_int [OF a b op] have sp:
    "sp = (WordBoundary # map (\<lambda>c. One (Lit c)) (digits_of a) @ [WordBoundary])
          @ [Star Space, One (Lit (hd op)), Star Space]
          @ (WordBoundary # map (\<lambda>c. One (Lit c)) (digits_of b) @ [WordBoundary])"
    by simp
  then obtain rest where hd_sp: "sp = WordBoundary # One (Lit d) # rest"
    using da by simp
  from sp obtain ps where tl_sp: "sp = ps @ [One (Lit d'), WordBoundary]"
    using db by simp
  from rx_find_split [OF f] have e: "e = pre @ m @ post"
    and mt: "rx_match sp (last_opt pre) (m @ post) = Some post"
    by simp_all
  from mt hd_sp obtain s1 where s1: "m @ post = d # s1"
    and w: "word_opt (last_opt pre) \<noteq> word_opt (next_char (m @ post))"
    by (cases "m @ post") (auto split: if_splits)
  from s1 d have "word_opt (next_char (m @ post))"
    by (simp add: next_char_def word_opt_def digit_word)
  with w have start: "\<not> word_opt (last_opt pre)"
    by simp
  from mt tl_sp rx_match_append [of ps "[One (Lit d'), WordBoundary]" "last_opt pre" "m @ post" post]
  obtain m1 mid where m1: "m @ post = m1 @ mid"
    and md: "rx_match [One (Lit d'), WordBoundary]
               (if m1 = [] then last_opt pre else Some (last m1)) mid = Some post"
    by auto
  from md have mid: "mid = d' # post" and w': "word_opt (Some d') \<noteq> word_opt (next_char post)"
    by (cases mid; auto split: if_splits)+
  from w' d' have stop: "\<not> word_opt (next_char post)"
    by (simp add: word_opt_def digit_word)
  from m1 mid have m: "m = m1 @ [d']"
    by simp
  then have ne: "m \<noteq> []" and l: "last m = d'"
    by simp_all
  from ne s1 have "hd m = d"
    by (cases m) auto
  with e start stop ne l d d' show ?thesis
    by simp
qed

lemma reduce_standard_changed:
  assumes "compiled (standard_pattern a b op) = Inr sp"
    and "rx_find sp [] e = Some (pre, m, post)"
    and "pre @ float_to_str r @ post \<noteq> e"
  shows "reduce_standard e a b op r = Inr (pre @ float_to_str r @ post)"
  using assms by (simp add: reduce_standard_def re_sub1_def)

text \<open>
  C9 (as amended). For non-negative integer operands and one of the four
  operators, both bounded patterns compile, and whenever the parenthesised rule
  or the bare rule rewrites the expression, the rewritten span runs from \<open>(\<close> to
  \<open>)\<close>, or from a digit that no word character precedes to a digit that no word
  character follows. Such a span never begins or ends inside a run of digits,
  so these two rules leave an integer token substituted earlier intact or
  consume it whole.
\<close>

theorem bounded_rules_keep_tokens:
  assumes "0 \<le> a" "0 \<le> b" "op \<in> set valid_ops"
  shows "\<exists>pp sp.
           compiled (parentheses_pattern (PInt a) (PInt b) op) = Inr pp
         \<and> compiled (standard_pattern (PInt a) (PInt b) op) = Inr sp
         \<and> (\<forall>e r pre m post.
              CHR ''('' \<in> set e \<and> CHR '')'' \<in> set e \<and> rx_find pp [] e = Some (pre, m, post) \<longrightarrow>
                reduce_expression e (PInt a) (PInt b) op r = Inr (pre @ float_to_str r @ post)
                \<and> e = pre @ m @ post \<and> (\<exists>m'. m = CHR ''('' # m' @ [CHR '')'']))
         \<and> (\<forall>e r pre m post.
              \<not> (CHR ''('' \<in> set e \<and> CHR '')'' \<in> set e \<and> re_search pp e)
              \<and> rx_find sp [] e = Some (pre, m, post) \<and> pre @ float_to_str r @ post \<noteq> e \<longrightarrow>
                reduce_expression e (PInt a) (PInt b) op r = Inr (pre @ float_to_str r @ post)
                \<and> e = pre @ m @ post
                \<and> \<not> word_opt (last_opt pre) \<and> \<not> word_opt (next_char post)
                \<and> m \<noteq> [] \<and> is_digit (hd m) \<and> is_digit (last m))"
proof -
  from compile_parentheses_int [OF assms] obtain pp where
    pp: "compiled (parentheses_pattern (PInt a) (PInt b) op) = Inr pp"
    by blast
  from compile_standard_int [OF assms] obtain sp where
    sp: "compiled (standard_pattern (PInt a) (PInt b) op) = Inr sp"
    by blast
  have 1: "reduce_expression e (PInt a) (PInt b) op r = Inr (pre @ float_to_str r @ post)
           \<and> e = pre @ m @ post \<and> (\<exists>m'. m = CHR ''('' # m' @ [CHR '')''])"
    if "CHR ''('' \<in> set e \<and> CHR '')'' \<in> set e \<and> rx_find pp [] e = Some (pre, m, post)"
    for e r pre m post
    using that reduce_parenthesised [OF pp, of e pre m post r] paren_match_shape [OF pp, of e pre m post]
    by blast
  have 2: "reduce_expression e (PInt a) (PInt b) op r = Inr (pre @ float_to_str r @ post)
           \<and> e = pre @ m @ post
           \<and> \<not> word_opt (last_opt pre) \<and> \<not> word_opt (next_char post)
           \<and> m \<noteq> [] \<and> is_digit (hd m) \<and> is_digit (last m)"
    if "\<not> (CHR ''('' \<in> set e \<and> CHR '')'' \<in> set e \<and> re_search pp e)
        \<and> rx_find sp [] e = Some (pre, m, post) \<and> pre @ float_to_str r @ post \<noteq> e"
    for e r pre m post
  proof -
    from that have n: "\<not> (CHR ''('' \<in> set e \<and> CHR '')'' \<in> set e \<and> re_search pp e)"
      and f: "rx_find sp [] e = Some (pre, m, post)"
      and ch: "pre @ float_to_str r @ post \<noteq> e"
      by simp_all
    have "reduce_expression e (PInt a) (PInt b) op r = Inr (pre @ float_to_str r @ post)"
      using reduce_not_parenthesised [OF pp n, of r] reduce_standard_changed [OF sp f ch]
      by simp
    with standard_match_bounds [OF assms sp f] show ?thesis
      by simp
  qed
  from pp sp 1 2 show ?thesis
    by blast
qed

theorem bounded_rules_keep_tokens_witness:
  "reduce_expression ''15 * 2 + 5 * 2'' (PInt 5) (PInt 2) ''*'' (PInt 10) = Inr ''15 * 2 + 10''
   \<and> reduce_expression ''15 * (5 * 2)'' (PInt 5) (PInt 2) ''*'' (PInt 10) = Inr ''15 * 10''"
proof -
  let ?pp = "[One (Lit CHR ''(''), Star Space, WordBoundary, One (Lit CHR ''5''), WordBoundary,
               Star Space, One (Lit CHR ''*''), Star Space, WordBoundary, One (Lit CHR ''2''),
               WordBoundary, Star Space, One (Lit CHR '')'')]"
  let ?sp = "[WordBoundary, One (Lit CHR ''5''), WordBoundary, Star Space, One (Lit CHR ''*''),
               Star Space, WordBoundary, One (Lit CHR ''2''), WordBoundary]"
  have ppv: "compiled (parentheses_pattern (PInt 5) (PInt 2) ''*'') = Inr ?pp"
    by code_simp
  have spv: "compiled (standard_pattern (PInt 5) (PInt 2) ''*'') = Inr ?sp"
    by code_simp
  have v: "''*'' \<in> set valid_ops"
    by (simp add: valid_ops_def)
  from bounded_rules_keep_tokens [of 5 2 "''*''"] v ppv spv have
    P: "\<forall>e r pre m post.
          CHR ''('' \<in> set e \<and> CHR '')'' \<in> set e \<and> rx_find ?pp [] e = Some (pre, m, post) \<longrightarrow>
            reduce_expression e (PInt 5) (PInt 2) ''*'' r = Inr (pre @ float_to_str r @ post)
            \<and> e = pre @ m @ post \<and> (\<exists>m'. m = CHR ''('' # m' @ [CHR '')''])" and
    S: "\<forall>e r pre m post.
          \<not> (CHR ''('' \<in> set e \<and> CHR '')'' \<in> set e \<and> re_search ?pp e)
          \<and> rx_find ?sp [] e = Some (pre, m, post) \<and> pre @ float_to_str r @ post \<noteq> e \<longrightarrow>
            reduce_expression e (PInt 5) (PInt 2) ''*'' r = Inr (pre @ float_to_str r @ post)
            \<and> e = pre @ m @ post
            \<and> \<not> word_opt (last_opt pre) \<and> \<not> word_opt (next_char post)
            \<and> m \<noteq> [] \<and> is_digit (hd m) \<and> is_digit (last m)"
    by auto
  have r: "float_to_str (PInt 10) = ''10''"
    by code_simp
  have f1: "rx_find ?sp [] ''15 * 2 + 5 * 2'' = Some (''15 * 2 + '', ''5 * 2'', '''')"
    by code_simp
  have 1: "reduce_expression ''15 * 2 + 5 * 2'' (PInt 5) (PInt 2) ''*'' (PInt 10) = Inr ''15 * 2 + 10''"
    using S [rule_format, of "''15 * 2 + 5 * 2''" "''15 * 2 + ''" "''5 * 2''" "''''" "PInt 10"] f1 r
    by simp
  have f2: "rx_find ?pp [] ''15 * (5 * 2)'' = Some (''15 * '', ''(5 * 2)'', '''')"
    by code_simp
  have 2: "reduce_expression ''15 * (5 * 2)'' (PInt 5) (PInt 2) ''*'' (PInt 10) = Inr ''15 * 10''"
    using P [rule_format, of "''15 * (5 * 2)''" "''15 * ''" "''(5 * 2)''" "''''" "PInt 10"] f2 r
    by simp
  show ?thesis using 1 2 by simp
qed

text \<open>
  The looser pattern has no word boundaries. After \<open>5 * 3\<close> has been reduced to
  \<open>15\<close> in \<open>5 * 3 * -2 + 5 * -2\<close>, reducing the other sub-expression \<open>5 * -2\<close>
  finds no bounded match (no word character precedes the minus sign), and the
  looser pattern rewrites the \<open>5\<close> inside the substituted \<open>15\<close>.
\<close>

theorem reduction_retouches_token_counterexample:
  "reduce_expression ''5 * 3 * -2 + 5 * -2'' (PInt 5) (PInt 3) ''*'' (PInt 15)
     = Inr ''15 * -2 + 5 * -2''
   \<and> reduce_expression ''15 * -2 + 5 * -2'' (PInt 5) (PInt (- 2)) ''*'' (PInt (- 10))
     = Inr ''1-10 + 5 * -2''"
  by code_simp

section \<open>Properties of the tool-call interpreter\<close>





text \<open>
  C4 (the code at the failing inputs). A payload whose \<open>op\<close> is \<open>%\<close> fails the
  first pass; the repair pass decodes it again but checks nothing about \<open>op\<close>,
  so the call reaches the calculator, which raises \<open>UnsupportedOperation\<close>
  instead of \<open>MalformedArguments\<close>. A numeric \<open>op\<close> ends in \<open>AttributeError\<close>, and
  an \<open>op\<close> with blanks around \<open>+\<close> is accepted and computed.
\<close>

theorem repair_pass_skips_validation:
  "first_pass (map_of (calls_table [(1, 2, ''%'', True)])) (payload 1 2 ''%'' True)
     = Inl (Caught (InvalidOperation ''%''))
   \<and> stepwise_process_tool_calls (table_env (calls_table [(1, 2, ''%'', True)]) [])
       [tool ''call_1'' (payload 1 2 ''%'' True)] = Inl (UnsupportedOperation ''%'')
   \<and> reducing_process_tool_calls (table_env (calls_table [(1, 2, ''%'', True)]) [])
       [tool ''call_1'' (payload 1 2 ''%'' True)] ''1 + 2'' = Inl (UnsupportedOperation ''%'')
   \<and> stepwise_process_tool_calls (table_env [(numeric_op_payload, numeric_op_decoded)] [])
       [tool ''call_1'' numeric_op_payload] = Inl PyAttributeError
   \<and> stepwise_process_tool_calls (table_env (calls_table [(1, 2, '' + '', True)]) [])
       [tool ''call_1'' (payload 1 2 '' + '' True)]
     = Inr \<lparr>results = [(PInt 3, ''call_1'')], is_final_step = JBool True,
            call_steps = [''1  +  2 = 3''], remaining_expression = ''''\<rparr>"
  by code_simp

section \<open>Properties of the Reducing agent's loop fallback\<close>

lemma count_char_zero: "count_char c s = 0 \<longleftrightarrow> c \<notin> set s"
  by (induction s) (auto simp: count_char_def)

lemma reducing_loop_fallback:
  assumes "run_prompt env st (reducing_prepare_next_prompt cfg e0) = (response, st')"
    and "reducing_process_tool_calls env response e0 = Inr res"
    and "loop_fallback prev (remaining_expression res) = Some v"
  shows "reducing_loop env cfg st i prev e0 = (Inr v, st')"
  by (subst reducing_loop.simps) (simp add: assms)

lemma try_ops_here:
  assumes "op \<in> set e" "split_on op e = [l, r]"
    and "py_float (strip l) = Some a" "py_float (strip r) = Some b"
  shows "try_ops (op # ops) e = Some (fallback_result op a b)"
  using assms by simp

lemma try_ops_skip: "c \<notin> set e \<Longrightarrow> try_ops (c # ops) e = try_ops ops e"
  by simp

lemma try_ops_single:
  assumes single: "operator_count e = 1"
    and op: "op \<in> set ''+-*/''" "op \<in> set e"
    and parts: "split_on op e = [l, r]"
    and nums: "py_float (strip l) = Some a" "py_float (strip r) = Some b"
  shows "try_ops ''+-*/'' e = Some (fallback_result op a b)"
proof -
  have pos: "0 < count_char op e"
    using op(2) count_char_zero [of op e] by auto
  note here = try_ops_here [OF op(2) parts nums]
  from op(1) consider "op = CHR ''+''" | "op = CHR ''-''" | "op = CHR ''*''" | "op = CHR ''/''"
    by auto
  then show ?thesis
  proof cases
    case 1
    then show ?thesis using here by simp
  next
    case 2
    then have "CHR ''+'' \<notin> set e"
      using single pos count_char_zero [of "CHR ''+''" e] by (simp add: operator_count_def)
    then show ?thesis using here 2 by (simp del: try_ops.simps add: try_ops_skip)
  next
    case 3
    then have "CHR ''+'' \<notin> set e" "CHR ''-'' \<notin> set e"
      using single pos count_char_zero [of "CHR ''+''" e] count_char_zero [of "CHR ''-''" e]
      by (simp_all add: operator_count_def)
    then show ?thesis using here 3 by (simp del: try_ops.simps add: try_ops_skip)
  next
    case 4
    then have "CHR ''+'' \<notin> set e" "CHR ''-'' \<notin> set e" "CHR ''*'' \<notin> set e"
      using single pos count_char_zero [of "CHR ''+''" e] count_char_zero [of "CHR ''-''" e]
        count_char_zero [of "CHR ''*''" e]
      by (simp_all add: operator_count_def)
    then show ?thesis using here 4 by (simp del: try_ops.simps add: try_ops_skip)
  qed
qed

lemma split_on_nonempty: "split_on c s \<noteq> []"
  by (induction s) (auto split: list.splits)

lemma length_split_on: "length (split_on c s) = Suc (count_char c s)"
proof (induction s)
  case Nil
  then show ?case by (simp add: count_char_def)
next
  case (Cons x xs)
  then show ?case
    using split_on_nonempty [of c xs]
    by (cases "split_on c xs") (auto simp: count_char_def)
qed

lemma split_on_two: "count_char c s = 1 \<Longrightarrow> \<exists>l r. split_on c s = [l, r]"
proof -
  assume "count_char c s = 1"
  then have "length (split_on c s) = 2"
    by (simp add: length_split_on)
  then show ?thesis
    by (cases "split_on c s"; cases "tl (split_on c s)") auto
qed

lemma single_operator:
  assumes "operator_count e = 1"
  shows "\<exists>op. op \<in> set ''+-*/'' \<and> op \<in> set e \<and> count_char op e = 1"
proof -
  from assms have "count_char CHR ''+'' e = 1 \<or> count_char CHR ''-'' e = 1
      \<or> count_char CHR ''*'' e = 1 \<or> count_char CHR ''/'' e = 1"
    unfolding operator_count_def by arith
  then consider "count_char CHR ''+'' e = 1" | "count_char CHR ''-'' e = 1"
    | "count_char CHR ''*'' e = 1" | "count_char CHR ''/'' e = 1"
    by blast
  then show ?thesis
  proof cases
    case 1
    with count_char_zero [of "CHR ''+''" e] show ?thesis by (intro exI [of _ "CHR ''+''"]) auto
  next
    case 2
    with count_char_zero [of "CHR ''-''" e] show ?thesis by (intro exI [of _ "CHR ''-''"]) auto
  next
    case 3
    with count_char_zero [of "CHR ''*''" e] show ?thesis by (intro exI [of _ "CHR ''*''"]) auto
  next
    case 4
    with count_char_zero [of "CHR ''/''" e] show ?thesis by (intro exI [of _ "CHR ''/''"]) auto
  qed
qed

text \<open>
  C3. When the expression after a turn's reduction has been seen before and
  holds exactly one operator character, that operator splits it into two
  sides, and if both sides parse as numbers the run returns at once the value
  computed from them (\<open>None\<close> for a division by zero): the model state returned
  is the one left by this turn's single call.
\<close>

theorem single_operator_fallback:
  assumes turn: "run_prompt env st (reducing_prepare_next_prompt cfg e0) = (response, st')"
    and proc: "reducing_process_tool_calls env response e0 = Inr res"
    and seen: "remaining_expression res \<in> prev"
    and single: "operator_count (remaining_expression res) = 1"
  shows "\<exists>op l r. op \<in> set ''+-*/'' \<and> split_on op (remaining_expression res) = [l, r]
           \<and> (\<forall>a b. py_float (strip l) = Some a \<and> py_float (strip r) = Some b \<longrightarrow>
                reducing_loop env cfg st i prev e0 =
                  (Inr (if op = CHR ''/'' \<and> b = 0 then PyNone
                        else Number (PFloat (if op = CHR ''+'' then a + b
                                             else if op = CHR ''-'' then a - b
                                             else if op = CHR ''*'' then a * b
                                             else a / b))), st'))"
proof -
  let ?e = "remaining_expression res"
  from single_operator [OF single] obtain op where
    op: "op \<in> set ''+-*/''" "op \<in> set ?e" and one: "count_char op ?e = 1"
    by blast
  from split_on_two [OF one] obtain l r where parts: "split_on op ?e = [l, r]"
    by blast
  have "reducing_loop env cfg st i prev e0 =
          (Inr (if op = CHR ''/'' \<and> b = 0 then PyNone
                else Number (PFloat (if op = CHR ''+'' then a + b
                                     else if op = CHR ''-'' then a - b
                                     else if op = CHR ''*'' then a * b
                                     else a / b))), st')"
    if nums: "py_float (strip l) = Some a \<and> py_float (strip r) = Some b" for a b
  proof -
    from nums have n: "py_float (strip l) = Some a" "py_float (strip r) = Some b"
      by simp_all
    have "loop_fallback prev ?e = Some (fallback_result op a b)"
      using try_ops_single [OF single op parts n] seen single
      by (simp add: loop_fallback_def)
    then have "reducing_loop env cfg st i prev e0 = (Inr (fallback_result op a b), st')"
      by (rule reducing_loop_fallback [OF turn proc])
    moreover have "fallback_result op a b =
        (if op = CHR ''/'' \<and> b = 0 then PyNone
         else Number (PFloat (if op = CHR ''+'' then a + b else if op = CHR ''-'' then a - b
                              else if op = CHR ''*'' then a * b else a / b)))"
      using op(1) by (auto simp: fallback_result_def)
    ultimately show ?thesis by simp
  qed
  with op(1) parts show ?thesis by blast
qed

theorem single_operator_fallback_witness:
  "reducing_loop (table_env (calls_table [(2, 3, ''+'', False), (5, 5, ''+'', True)]) [])
      (reducing_cfg 5) (one_call_turns [(2, 3, ''+'', False), (5, 5, ''+'', True)])
      2 {''5 + 5'', ''2 + 3 + 5''} ''5 + 5''
     = (Inr (Number (PFloat 10)), one_call_turns [(5, 5, ''+'', True)])
   \<and> reducing_run (table_env (calls_table [(2, 3, ''+'', False), (5, 5, ''+'', True)]) [])
      (reducing_cfg 5)
      (one_call_turns [(2, 3, ''+'', False), (2, 3, ''+'', False), (5, 5, ''+'', True)])
      ''2 + 3 + 5''
     = (Inr (Number (PFloat 10)), one_call_turns [(5, 5, ''+'', True)])"
proof -
  let ?env = "table_env (calls_table [(2, 3, ''+'', False), (5, 5, ''+'', True)]) []
                :: (tool_call list list) env"
  let ?res = "\<lparr>results = [(PInt 5, ''call_1'')], is_final_step = JBool False,
               call_steps = [''2 + 3 = 5''], remaining_expression = ''5 + 5''\<rparr>"
  let ?st = "one_call_turns [(2, 3, ''+'', False), (5, 5, ''+'', True)]"
  let ?prev = "{''5 + 5'', ''2 + 3 + 5''}"
  have turn: "run_prompt ?env ?st (reducing_prepare_next_prompt (reducing_cfg 5) ''5 + 5'')
              = ([tool ''call_1'' (payload 2 3 ''+'' False)], one_call_turns [(5, 5, ''+'', True)])"
    by (simp add: table_env_def scripted_def one_call_turns_def)
  have proc: "reducing_process_tool_calls ?env [tool ''call_1'' (payload 2 3 ''+'' False)] ''5 + 5''
                = Inr ?res"
    by code_simp
  have seen: "remaining_expression ?res \<in> ?prev"
    by simp
  have single: "operator_count (remaining_expression ?res) = 1"
    by code_simp
  from single_operator_fallback [OF turn proc seen single, of 2]
  obtain op l r where op: "op \<in> set ''+-*/''" and parts: "split_on op ''5 + 5'' = [l, r]"
    and run: "\<forall>a b. py_float (strip l) = Some a \<and> py_float (strip r) = Some b \<longrightarrow>
                reducing_loop ?env (reducing_cfg 5) ?st 2 ?prev ''5 + 5'' =
                  (Inr (if op = CHR ''/'' \<and> b = 0 then PyNone
                        else Number (PFloat (if op = CHR ''+'' then a + b
                                             else if op = CHR ''-'' then a - b
                                             else if op = CHR ''*'' then a * b
                                             else a / b))), one_call_turns [(5, 5, ''+'', True)])"
    by auto
  have others: "split_on CHR ''-'' ''5 + 5'' = [''5 + 5'']" "split_on CHR ''*'' ''5 + 5'' = [''5 + 5'']"
    "split_on CHR ''/'' ''5 + 5'' = [''5 + 5'']" "split_on CHR ''+'' ''5 + 5'' = [''5 '', '' 5'']"
    by code_simp+
  from op parts others have plus: "op = CHR ''+''" and lr: "l = ''5 ''" "r = '' 5''"
    by auto
  have nums: "py_float (strip ''5 '') = Some 5" "py_float (strip '' 5'') = Some 5"
    by code_simp+
  have 1: "reducing_loop ?env (reducing_cfg 5) ?st 2 ?prev ''5 + 5''
     = (Inr (Number (PFloat 10)), one_call_turns [(5, 5, ''+'', True)])"
    using run [rule_format, of 5 5] nums plus lr by simp
  have 2: "reducing_run ?env (reducing_cfg 5)
      (one_call_turns [(2, 3, ''+'', False), (2, 3, ''+'', False), (5, 5, ''+'', True)])
      ''2 + 3 + 5''
     = (Inr (Number (PFloat 10)), one_call_turns [(5, 5, ''+'', True)])"
    by code_simp
  show ?thesis using 1 2 by simp
qed

text \<open>
  C10. When the single-operator fallback fires on a division whose right-hand
  side parses to zero, the run returns \<open>None\<close> at once: no error is raised and no
  number is produced.
\<close>

theorem fallback_division_by_zero:
  assumes turn: "run_prompt env st (reducing_prepare_next_prompt cfg e0) = (response, st')"
    and proc: "reducing_process_tool_calls env response e0 = Inr res"
    and seen: "remaining_expression res \<in> prev"
    and single: "operator_count (remaining_expression res) = 1"
    and op: "CHR ''/'' \<in> set (remaining_expression res)"
  shows "\<exists>l r. split_on CHR ''/'' (remaining_expression res) = [l, r]
           \<and> (\<forall>a. py_float (strip l) = Some a \<and> py_float (strip r) = Some 0 \<longrightarrow>
                reducing_loop env cfg st i prev e0 = (Inr PyNone, st'))"
proof -
  let ?e = "remaining_expression res"
  from single_operator [OF single] obtain c where
    c: "c \<in> set ''+-*/''" "c \<in> set ?e" "count_char c ?e = 1"
    by blast
  have pos: "0 < count_char CHR ''/'' ?e"
    using op count_char_zero [of "CHR ''/''" ?e] by auto
  with c single have "count_char CHR ''/'' ?e = 1"
    by (auto simp: operator_count_def)
  from split_on_two [OF this] obtain l r where parts: "split_on CHR ''/'' ?e = [l, r]"
    by blast
  have "reducing_loop env cfg st i prev e0 = (Inr PyNone, st')"
    if "py_float (strip l) = Some a \<and> py_float (strip r) = Some 0" for a
  proof -
    from that have n: "py_float (strip l) = Some a" "py_float (strip r) = Some 0"
      by simp_all
    have "try_ops ''+-*/'' ?e = Some (fallback_result CHR ''/'' a 0)"
      by (rule try_ops_single [OF single _ op parts n]) simp
    then have "loop_fallback prev ?e = Some PyNone"
      using seen single by (simp add: loop_fallback_def fallback_result_def)
    then show ?thesis
      by (rule reducing_loop_fallback [OF turn proc])
  qed
  with parts show ?thesis by blast
qed

theorem fallback_division_by_zero_witness:
  "reducing_run (table_env (calls_table [(8, 2, ''/'', False)]) []) (reducing_cfg 5)
      (one_call_turns [(8, 2, ''/'', False), (8, 2, ''/'', False)]) ''8 / 0''
     = (Inr PyNone, one_call_turns [(8, 2, ''/'', False)])"
proof -
  let ?env = "table_env (calls_table [(8, 2, ''/'', False)]) [] :: (tool_call list list) env"
  let ?res = "\<lparr>results = [(PFloat 4, ''call_1'')], is_final_step = JBool False,
               call_steps = [''8 / 2 = 4.0''], remaining_expression = ''8 / 0''\<rparr>"
  let ?st = "one_call_turns [(8, 2, ''/'', False), (8, 2, ''/'', False)]"
  have valid: "validate_expression ''8 / 0'' (max_expression_length (reducing_cfg 5)) = Inr True"
    by code_simp
  have turn: "run_prompt ?env ?st (reducing_prepare_next_prompt (reducing_cfg 5) ''8 / 0'')
              = ([tool ''call_1'' (payload 8 2 ''/'' False)], one_call_turns [(8, 2, ''/'', False)])"
    by (simp add: table_env_def scripted_def one_call_turns_def)
  have proc: "reducing_process_tool_calls ?env [tool ''call_1'' (payload 8 2 ''/'' False)] ''8 / 0''
                = Inr ?res"
    by code_simp
  have seen: "remaining_expression ?res \<in> {''8 / 0''}"
    by simp
  have single: "operator_count (remaining_expression ?res) = 1"
    by code_simp
  have op: "CHR ''/'' \<in> set (remaining_expression ?res)"
    by simp
  from fallback_division_by_zero [OF turn proc seen single op, of 1]
  obtain l r where parts: "split_on CHR ''/'' ''8 / 0'' = [l, r]"
    and run: "\<forall>a. py_float (strip l) = Some a \<and> py_float (strip r) = Some 0 \<longrightarrow>
                reducing_loop ?env (reducing_cfg 5) ?st 1 {''8 / 0''} ''8 / 0''
                  = (Inr PyNone, one_call_turns [(8, 2, ''/'', False)])"
    by auto
  have "split_on CHR ''/'' ''8 / 0'' = [''8 '', '' 0'']"
    by code_simp
  with parts have lr: "l = ''8 ''" "r = '' 0''"
    by simp_all
  have nums: "py_float (strip ''8 '') = Some 8" "py_float (strip '' 0'') = Some 0"
    by code_simp+
  show ?thesis
    using run [rule_format, of 8] nums lr valid
    by (simp add: reducing_run_def)
qed

section \<open>The round-trip scenario\<close>

lemma strip_valid_op: "op \<in> set valid_ops \<Longrightarrow> strip op = op"
  by (auto simp: valid_ops_def)

lemma parse_payload:
  assumes "loads (payload a b op fin) = Some (decoded a b op fin)" "op \<in> set valid_ops"
  shows "parse_arguments loads (payload a b op fin)
           = Inr (JNum (PInt a), JNum (PInt b), JStr op, JBool fin)"
  using assms
  by (simp add: parse_arguments_def first_pass_def decoded_def fix_op_key_def dict_get_def)

lemma stepwise_single:
  assumes "json_loads env (payload a b op fin) = Some (decoded a b op fin)" "op \<in> set valid_ops"
    and "calculate (PInt a) (PInt b) op = Inr r"
  shows "stepwise_process_tool_calls env [tool cid (payload a b op fin)] =
           Inr \<lparr>results = [(r, cid)], is_final_step = JBool fin,
                call_steps = [step_str (float_repr env) (PInt a) op (PInt b) r],
                remaining_expression = ''''\<rparr>"
  using assms(2,3) parse_payload [of "json_loads env" a b op fin, OF assms(1,2)]
  by (simp add: stepwise_process_tool_calls_def tool_def call_calculate_def strip_valid_op)

lemma reducing_single:
  assumes "json_loads env (payload a b op fin) = Some (decoded a b op fin)" "op \<in> set valid_ops"
    and "calculate (PInt a) (PInt b) op = Inr r"
    and "reduce_expression e (PInt a) (PInt b) op r = Inr e'"
  shows "reducing_process_tool_calls env [tool cid (payload a b op fin)] e =
           Inr \<lparr>results = [(r, cid)], is_final_step = JBool fin,
                call_steps = [step_str (float_repr env) (PInt a) op (PInt b) r],
                remaining_expression = e'\<rparr>"
  using assms(2,3,4) parse_payload [of "json_loads env" a b op fin, OF assms(1,2)]
  by (simp add: reducing_process_tool_calls_def tool_def call_calculate_def strip_valid_op)

lemma round_trip_valid: "validate_expression ''10 + 5 * 3 - 8 / 2'' m = (if 18 \<le> m then Inr True else Inl (ExpressionTooLong m))"
proof -
  have "match_allowed ''10 + 5 * 3 - 8 / 2''" by code_simp
  then show ?thesis by (simp add: validate_expression_def)
qed

lemma round_trip_calc:
  "calculate (PInt 5) (PInt 3) ''*'' = Inr (PInt 15)"
  "calculate (PInt 8) (PInt 2) ''/'' = Inr (PFloat 4)"
  "calculate (PInt 10) (PInt 15) ''+'' = Inr (PInt 25)"
  "calculate (PInt 25) (PInt 4) ''-'' = Inr (PInt 21)"
  by (simp_all add: calculate_def py_truediv_def)

lemma round_trip_reduce:
  "reduce_expression ''10 + 5 * 3 - 8 / 2'' (PInt 5) (PInt 3) ''*'' (PInt 15) = Inr ''10 + 15 - 8 / 2''"
  "reduce_expression ''10 + 15 - 8 / 2'' (PInt 8) (PInt 2) ''/'' (PFloat 4) = Inr ''10 + 15 - 4''"
  "reduce_expression ''10 + 15 - 4'' (PInt 10) (PInt 15) ''+'' (PInt 25) = Inr ''25 - 4''"
  "reduce_expression ''25 - 4'' (PInt 25) (PInt 4) ''-'' (PInt 21) = Inr ''21''"
  by code_simp+

lemma round_trip_no_loop:
  "loop_fallback {''10 + 5 * 3 - 8 / 2''} ''10 + 15 - 8 / 2'' = None"
  "loop_fallback {''10 + 15 - 8 / 2'', ''10 + 5 * 3 - 8 / 2''} ''10 + 15 - 4'' = None"
  "loop_fallback {''10 + 15 - 4'', ''10 + 15 - 8 / 2'', ''10 + 5 * 3 - 8 / 2''} ''25 - 4'' = None"
  "loop_fallback {''25 - 4'', ''10 + 15 - 4'', ''10 + 15 - 8 / 2'', ''10 + 5 * 3 - 8 / 2''} ''21'' = None"
  by (simp_all add: loop_fallback_def operator_count_def count_char_def)

text \<open>
  C1. On \<open>10 + 5 * 3 - 8 / 2\<close>, with a model that emits the four calls one per
  turn, a decoder that decodes their payloads, a budget of at least four calls
  and a length limit of at least 18, both agents return 21 and have consumed
  the whole script.
\<close>

theorem round_trip:
  assumes dec: "\<forall>(a, b, op, fin) \<in> set round_trip_calls.
                  json_loads env (payload a b op fin) = Some (decoded a b op fin)"
    and model: "run_prompt env = scripted"
    and budget: "4 \<le> max_llm_calls scfg" "4 \<le> max_llm_calls rcfg"
    and len: "18 \<le> max_expression_length scfg" "18 \<le> max_expression_length rcfg"
  shows "stepwise_run env scfg (one_call_turns round_trip_calls) ''10 + 5 * 3 - 8 / 2''
           = (Inr (Number (PInt 21)), [])
       \<and> reducing_run env rcfg (one_call_turns round_trip_calls) ''10 + 5 * 3 - 8 / 2''
           = (Inr (Number (PInt 21)), [])"
proof -
  have v: "set valid_ops = {''+'', ''-'', ''*'', ''/''}"
    by (auto simp: valid_ops_def)
  have d: "json_loads env (payload 5 3 ''*'' False) = Some (decoded 5 3 ''*'' False)"
    "json_loads env (payload 8 2 ''/'' False) = Some (decoded 8 2 ''/'' False)"
    "json_loads env (payload 10 15 ''+'' False) = Some (decoded 10 15 ''+'' False)"
    "json_loads env (payload 25 4 ''-'' True) = Some (decoded 25 4 ''-'' True)"
    using dec by (simp_all add: round_trip_calls_def)
  note s = stepwise_single [OF d(1) _ round_trip_calc(1)] stepwise_single [OF d(2) _ round_trip_calc(2)]
    stepwise_single [OF d(3) _ round_trip_calc(3)] stepwise_single [OF d(4) _ round_trip_calc(4)]
  note r = reducing_single [OF d(1) _ round_trip_calc(1) round_trip_reduce(1)]
    reducing_single [OF d(2) _ round_trip_calc(2) round_trip_reduce(2)]
    reducing_single [OF d(3) _ round_trip_calc(3) round_trip_reduce(3)]
    reducing_single [OF d(4) _ round_trip_calc(4) round_trip_reduce(4)]
  have 1: "stepwise_run env scfg (one_call_turns round_trip_calls) ''10 + 5 * 3 - 8 / 2''
           = (Inr (Number (PInt 21)), [])"
    using budget(1) len(1)
    by (simp add: stepwise_run_def round_trip_valid one_call_turns_def round_trip_calls_def
        stepwise_loop.simps [of env scfg] model scripted_def s v last_result_def)
  have 2: "reducing_run env rcfg (one_call_turns round_trip_calls) ''10 + 5 * 3 - 8 / 2''
           = (Inr (Number (PInt 21)), [])"
    using budget(2) len(2)
    by (simp add: reducing_run_def round_trip_valid one_call_turns_def round_trip_calls_def
        reducing_loop.simps [of env rcfg] model scripted_def r v last_result_def round_trip_no_loop)
  show ?thesis using 1 2 by simp
qed

theorem round_trip_witness:
  "stepwise_run (table_env (calls_table round_trip_calls) []) (stepwise_cfg 4)
       (one_call_turns round_trip_calls) ''10 + 5 * 3 - 8 / 2'' = (Inr (Number (PInt 21)), [])
   \<and> reducing_run (table_env (calls_table round_trip_calls) []) (reducing_cfg 4)
       (one_call_turns round_trip_calls) ''10 + 5 * 3 - 8 / 2'' = (Inr (Number (PInt 21)), [])"
proof -
  have dec: "\<forall>(a, b, op, fin) \<in> set round_trip_calls.
      json_loads (table_env (calls_table round_trip_calls) []) (payload a b op fin)
        = Some (decoded a b op fin)"
    by code_simp
  have model: "run_prompt (table_env (calls_table round_trip_calls) []) = scripted"
    by (simp add: table_env_def)
  show ?thesis
    by (rule round_trip [OF dec model]) (simp_all add: stepwise_cfg_def reducing_cfg_def)
qed

section \<open>Budget exhaustion\<close>

lemma stepwise_budget:
  assumes "validate_expression e (max_expression_length scfg) = Inr True"
    and "run_prompt env st [SystemMessage (system_prompt scfg),
            UserMessage (str_replace ''{EXPRESSION}'' e (initial_prompt scfg))] = (response, st')"
    and "stepwise_process_tool_calls env response = Inr res"
    and "\<not> truthy (is_final_step res)"
    and "max_llm_calls scfg = 1"
  shows "stepwise_run env scfg st e = (Inl (MaxCallsExceeded 1), st')"
  using assms by (simp add: stepwise_run_def stepwise_loop.simps [of env scfg e st 1])

lemma reducing_budget:
  assumes "validate_expression e (max_expression_length rcfg) = Inr True"
    and "run_prompt env st (reducing_prepare_next_prompt rcfg e) = (response, st')"
    and "reducing_process_tool_calls env response e = Inr res"
    and "\<not> truthy (is_final_step res)"
    and "loop_fallback {e} (remaining_expression res) = None"
    and "max_llm_calls rcfg = 1"
  shows "reducing_run env rcfg st e =
           (case py_eval env (remaining_expression res) of
              Some v \<Rightarrow> (Inr v, st')
            | None \<Rightarrow> (Inl (MaxCallsExceeded 1), st'))"
  using assms by (simp add: reducing_run_def reducing_loop.simps [of env rcfg st 1] split: option.splits)

text \<open>
  C2 (as amended). With a budget of one call and a first turn that is processed
  without the final flag, Stepwise fails with \<open>MaxCallsExceeded\<close>; Reducing,
  provided the single-operator loop fallback has not returned in that turn,
  returns the value of the direct evaluator on the reduced expression, and
  fails with \<open>MaxCallsExceeded\<close> when that evaluation fails.
\<close>

theorem budget_exhaustion:
  "(validate_expression e (max_expression_length scfg) = Inr True
      \<and> run_prompt env st [SystemMessage (system_prompt scfg),
            UserMessage (str_replace ''{EXPRESSION}'' e (initial_prompt scfg))] = (response, st')
      \<and> stepwise_process_tool_calls env response = Inr res
      \<and> \<not> truthy (is_final_step res) \<and> max_llm_calls scfg = 1
    \<longrightarrow> stepwise_run env scfg st e = (Inl (MaxCallsExceeded 1), st'))
   \<and> (validate_expression e (max_expression_length rcfg) = Inr True
      \<and> run_prompt env st (reducing_prepare_next_prompt rcfg e) = (response', st'')
      \<and> reducing_process_tool_calls env response' e = Inr res'
      \<and> \<not> truthy (is_final_step res') \<and> max_llm_calls rcfg = 1
      \<and> loop_fallback {e} (remaining_expression res') = None
    \<longrightarrow> reducing_run env rcfg st e =
          (case py_eval env (remaining_expression res') of
             Some v \<Rightarrow> (Inr v, st'')
           | None \<Rightarrow> (Inl (MaxCallsExceeded 1), st'')))"
  using stepwise_budget [of e scfg env st response st' res]
    reducing_budget [of e rcfg env st response' st'' res']
  by blast

theorem budget_exhaustion_witness:
  "stepwise_run (table_env (calls_table [(1, 2, ''+'', False)]) [(''3 + 3'', Number (PInt 6))])
      (stepwise_cfg 1) (one_call_turns [(1, 2, ''+'', False)]) ''1 + 2 + 3''
     = (Inl (MaxCallsExceeded 1), [])
   \<and> reducing_run (table_env (calls_table [(1, 2, ''+'', False)]) [(''3 + 3'', Number (PInt 6))])
      (reducing_cfg 1) (one_call_turns [(1, 2, ''+'', False)]) ''1 + 2 + 3''
     = (Inr (Number (PInt 6)), [])"
proof -
  let ?env = "table_env (calls_table [(1, 2, ''+'', False)]) [(''3 + 3'', Number (PInt 6))]
                :: (tool_call list list) env"
  let ?rs = "\<lparr>results = [(PInt 3, ''call_1'')], is_final_step = JBool False,
              call_steps = [''1 + 2 = 3''], remaining_expression = ''''\<rparr>"
  let ?rr = "\<lparr>results = [(PInt 3, ''call_1'')], is_final_step = JBool False,
              call_steps = [''1 + 2 = 3''], remaining_expression = ''3 + 3''\<rparr>"
  have vs: "validate_expression ''1 + 2 + 3'' (max_expression_length (stepwise_cfg 1)) = Inr True"
    by code_simp
  have vr: "validate_expression ''1 + 2 + 3'' (max_expression_length (reducing_cfg 1)) = Inr True"
    by code_simp
  have ts: "run_prompt ?env (one_call_turns [(1, 2, ''+'', False)])
      [SystemMessage (system_prompt (stepwise_cfg 1)),
       UserMessage (str_replace ''{EXPRESSION}'' ''1 + 2 + 3'' (initial_prompt (stepwise_cfg 1)))]
      = ([tool ''call_1'' (payload 1 2 ''+'' False)], [])"
    by (simp add: table_env_def scripted_def one_call_turns_def)
  have tr: "run_prompt ?env (one_call_turns [(1, 2, ''+'', False)])
      (reducing_prepare_next_prompt (reducing_cfg 1) ''1 + 2 + 3'')
      = ([tool ''call_1'' (payload 1 2 ''+'' False)], [])"
    by (simp add: table_env_def scripted_def one_call_turns_def)
  have ps: "stepwise_process_tool_calls ?env [tool ''call_1'' (payload 1 2 ''+'' False)] = Inr ?rs"
    by code_simp
  have pr: "reducing_process_tool_calls ?env [tool ''call_1'' (payload 1 2 ''+'' False)] ''1 + 2 + 3''
              = Inr ?rr"
    by code_simp
  have nl: "loop_fallback {''1 + 2 + 3''} (remaining_expression ?rr) = None"
    by (simp add: loop_fallback_def)
  have ev: "py_eval ?env ''3 + 3'' = Some (Number (PInt 6))"
    by (simp add: table_env_def)
  have ms: "max_llm_calls (stepwise_cfg 1) = 1" "max_llm_calls (reducing_cfg 1) = 1"
    by (simp_all add: stepwise_cfg_def reducing_cfg_def)
  show ?thesis
    using budget_exhaustion [of "''1 + 2 + 3''" "stepwise_cfg 1" ?env
        "one_call_turns [(1, 2, ''+'', False)]" "[tool ''call_1'' (payload 1 2 ''+'' False)]" "[]" ?rs
        "reducing_cfg 1" "[tool ''call_1'' (payload 1 2 ''+'' False)]" "[]" ?rr]
      vs vr ts tr ps pr nl ev ms
    by simp
qed

text \<open>
  With a budget of one call and a model whose only call is not final and does
  not occur in the expression, the loop fallback returns before the budget is
  looked at. On \<open>010 + 1\<close>, which the direct evaluator rejects (a leading zero),
  the run returns 11.0; on \<open>6 / 0\<close>, which the evaluator cannot evaluate either,
  it returns \<open>None\<close>. Neither run fails with \<open>MaxCallsExceeded\<close>.
\<close>

theorem budget_exhaustion_counterexample:
  "py_eval (table_env (calls_table [(2, 2, ''+'', False)]) [] :: (tool_call list list) env) ''010 + 1''
     = None
   \<and> reducing_run (table_env (calls_table [(2, 2, ''+'', False)]) []) (reducing_cfg 1)
       (one_call_turns [(2, 2, ''+'', False)]) ''010 + 1'' = (Inr (Number (PFloat 11)), [])
   \<and> py_eval (table_env (calls_table [(1, 1, ''+'', False)]) [] :: (tool_call list list) env) ''6 / 0''
     = None
   \<and> reducing_run (table_env (calls_table [(1, 1, ''+'', False)]) []) (reducing_cfg 1)
       (one_call_turns [(1, 1, ''+'', False)]) ''6 / 0'' = (Inr PyNone, [])"
  by code_simp

end
